theory Spec2Isabelle
  imports
    Main
    "HOL-Library.AList"
    "HOL-Library.Char_ord"
    "HOL-Library.List_Lexorder"
    "HOL-Library.Multiset"
    "HOL-Library.Sublist"
begin

section \<open>Watson: a shallow embedding of \<^verbatim>\<open>watson/watson.py\<close>\<close>

text \<open>
  The class \<^verbatim>\<open>Watson\<close> keeps a tree of projects, each with a list of frames, and the
  session that is currently running. This theory translates its methods into HOL
  functions: the object is a record that every mutating method returns updated, an
  exception is the \<open>Inl\<close> of a sum, the clock (\<^verbatim>\<open>arrow.now()\<close>), the file system, the JSON
  parser, Python's \<^verbatim>\<open>str\<close> and the remote server are arguments. Python 3 is assumed: a
  \<^verbatim>\<open>dict\<close> iterates in insertion order and is an association list here.
\<close>

subsection \<open>Time values\<close>

text \<open>
  An \<^verbatim>\<open>arrow.Arrow\<close> is an aware datetime: a wall-clock reading with microseconds and the
  offset of its timezone from UTC. The reading is counted in microseconds from
  1970-01-01T00:00:00 on the same wall clock, so that the UTC instant is the reading
  minus the offset. The library's range of years (1 to 9999, and less on some platforms)
  is not modelled: readings are unbounded integers.
\<close>

record arrow =
  wall_micros :: int
  utcoffset :: int

definition utc_micros :: "arrow \<Rightarrow> int" where
  "utc_micros a = wall_micros a - 1000000 * utcoffset a"

text \<open>
  The property \<^verbatim>\<open>Arrow.timestamp\<close> is \<^verbatim>\<open>calendar.timegm(self._datetime.utctimetuple())\<close>:
  the UTC time tuple has no microseconds, so the result is the whole seconds at or before
  the instant.
\<close>

definition timestamp :: "arrow \<Rightarrow> int" where
  "timestamp a = utc_micros a div 1000000"

definition utcfromtimestamp :: "int \<Rightarrow> arrow" where
  "utcfromtimestamp t = \<lparr>wall_micros = 1000000 * t, utcoffset = 0\<rparr>"

text \<open>
  The dates the methods receive are \<^verbatim>\<open>Arrow\<close> objects or plain integer timestamps (what a
  persisted document holds). \<^verbatim>\<open>arrow.get\<close> of an integer is \<^verbatim>\<open>Arrow.utcfromtimestamp\<close>.
\<close>

datatype date = DArrow arrow | DInt int

definition arrow_get :: "int \<Rightarrow> arrow" where
  "arrow_get t = utcfromtimestamp t"

definition parse_date :: "int \<Rightarrow> arrow" where
  "parse_date d = utcfromtimestamp d"

fun format_date :: "date \<Rightarrow> int" where
  "format_date (DArrow a) = timestamp a"
| "format_date (DInt t) = timestamp (arrow_get t)"

subsection \<open>Python values, frames and the project tree\<close>

text \<open>
  The values that the dictionaries built by \<^verbatim>\<open>frames\<close> and \<^verbatim>\<open>push\<close> hold, and that go to
  and come from the remote server as JSON. A dictionary is an association list in
  insertion order: \<open>map_of\<close> reads a key, \<open>AList.update\<close> assigns one (in place when the
  key exists, at the end otherwise) and \<open>AList.delete\<close> is \<^verbatim>\<open>del\<close>.
\<close>

datatype pyval =
    PNone
  | PInt int
  | PStr string
  | PArrow arrow
  | PList "pyval list"
  | PDict "(string \<times> pyval) list"

type_synonym pydict = "(string \<times> pyval) list"

text \<open>
  \<^verbatim>\<open>d[k]\<close> raises \<^verbatim>\<open>KeyError\<close> on a missing key; \<open>getitem\<close> is only specified where the key
  is there. \<^verbatim>\<open>d.get(k)\<close> is \<^verbatim>\<open>None\<close> on a missing key.
\<close>

definition getitem :: "pydict \<Rightarrow> string \<Rightarrow> pyval" where
  "getitem d k = the (map_of d k)"

definition dict_get :: "pydict \<Rightarrow> string \<Rightarrow> pyval" where
  "dict_get d k = (case map_of d k of None \<Rightarrow> PNone | Some v \<Rightarrow> v)"

text \<open>
  A frame as the tree stores it: \<^verbatim>\<open>{'start': int, 'stop': int}\<close> with the optional keys
  \<^verbatim>\<open>'message'\<close> and \<^verbatim>\<open>'id'\<close>. An optional key is an option: \<open>None\<close> when the key is absent.
\<close>

record raw_frame =
  rf_start :: int
  rf_stop :: int
  rf_message :: "string option"
  rf_id :: "pyval option"

text \<open>
  A project node is \<^verbatim>\<open>{'frames': [...], 'projects': {...}}\<close>. The root \<^verbatim>\<open>self.tree\<close> is
  \<^verbatim>\<open>{'projects': {...}}\<close> with no frames of its own: the state holds the dictionary under
  its one key.
\<close>

datatype project = Project (node_frames: "raw_frame list") (node_projects: "(string \<times> project) list")

type_synonym projects_dict = "(string \<times> project) list"

text \<open>\<^verbatim>\<open>self._current\<close> is \<^verbatim>\<open>None\<close> or \<^verbatim>\<open>{'project': ..., 'start': ...}\<close>.\<close>

record cur =
  cur_project :: string
  cur_start :: date

record watson =
  tree :: projects_dict
  current :: "cur option"

text \<open>
  The dictionary \<^verbatim>\<open>content\<close> that \<^verbatim>\<open>_load\<close> reads and \<^verbatim>\<open>dump\<close> writes: both of its keys are
  optional, and so are the two keys of the value under \<^verbatim>\<open>'current'\<close>. A start that is a
  string (which the setter of \<^verbatim>\<open>current\<close> would hand to the arrow library's parser) is
  outside this type; \<^verbatim>\<open>dump\<close> always writes an integer.
\<close>

record cur_doc =
  doc_project :: "string option"
  doc_start :: "date option"

record content =
  c_projects :: "projects_dict option"
  c_current :: "cur_doc option"

definition empty_content :: content where
  "empty_content = \<lparr>c_projects = None, c_current = None\<rparr>"

text \<open>
  Every exception the class raises itself is a \<^verbatim>\<open>WatsonError\<close> with a message; one
  constructor stands for each message:
  \<^item> \<open>AlreadyStarted p\<close>: "Project p is already started."
  \<^item> \<open>NoProjectGiven\<close>: "No project given."
  \<^item> \<open>NoProjectStarted\<close>: "No project started."
  \<^item> \<open>InvalidWatsonFile f e\<close>: "Invalid Watson file f: e"
  \<^item> \<open>MissingCrickConfig\<close>: "You must specify a remote URL and a token ..."
  \<^item> \<open>UnableToReachServer\<close>: "Unable to reach the server."
  \<^item> \<open>RemoteServerError j\<close>: "An error occured with the remote server: j"

  \<open>TypeError\<close> and \<open>AttributeError\<close> are Python's own: the first is raised by \<^verbatim>\<open>zip\<close> on a
  response that cannot be iterated, the second by \<^verbatim>\<open>content.get\<close> when the file holds a JSON
  value that is not an object.
\<close>

datatype error =
    AlreadyStarted string
  | NoProjectGiven
  | NoProjectStarted
  | InvalidWatsonFile string string
  | MissingCrickConfig
  | UnableToReachServer
  | RemoteServerError pyval
  | TypeError
  | AttributeError

subsection \<open>Loading and dumping\<close>

text \<open>
  \<^verbatim>\<open>open(self.filename)\<close> raises \<^verbatim>\<open>IOError\<close> or gives the file's text; \<^verbatim>\<open>json.load\<close> raises
  \<^verbatim>\<open>ValueError\<close> (with a message) or gives the parsed value: a dictionary, or a JSON value
  of another kind (a list, a number, a string). The parser is an argument. The \<^verbatim>\<open>else\<close> branch of the \<^verbatim>\<open>try\<close> statement is never run, since the \<^verbatim>\<open>try\<close>
  suite leaves by \<^verbatim>\<open>return\<close>.
\<close>

datatype file_state = NoFile | FileText string

datatype document = Dict content | NotDict

datatype json_result = ValueError string | Parsed document

definition load_watson_file ::
  "(string \<Rightarrow> json_result) \<Rightarrow> string \<Rightarrow> file_state \<Rightarrow> error + document" where
  "load_watson_file json_load filename file =
     (case file of
        NoFile \<Rightarrow> Inr (Dict empty_content)
      | FileText s \<Rightarrow>
          (case json_load s of
             Parsed d \<Rightarrow> Inr d
           | ValueError e \<Rightarrow>
               if length s = 0 then Inr (Dict empty_content)
               else Inl (InvalidWatsonFile filename e)))"

text \<open>The getter and the setter of the property \<^verbatim>\<open>current\<close>, and \<^verbatim>\<open>is_started\<close>.\<close>

definition current_get :: "watson \<Rightarrow> cur option" where
  "current_get w = (case current w of None \<Rightarrow> None | Some c \<Rightarrow> Some c)"

definition current_set :: "arrow \<Rightarrow> cur_doc option \<Rightarrow> watson \<Rightarrow> watson" where
  "current_set now v w =
     (case v of
        None \<Rightarrow> w\<lparr>current := None\<rparr>
      | Some d \<Rightarrow>
          (case doc_project d of
             None \<Rightarrow> w\<lparr>current := None\<rparr>
           | Some p \<Rightarrow>
               w\<lparr>current := Some \<lparr>cur_project = p,
                 cur_start = (case doc_start d of None \<Rightarrow> DArrow now | Some s \<Rightarrow> s)\<rparr>\<rparr>))"

definition is_started :: "watson \<Rightarrow> bool" where
  "is_started w = (current_get w \<noteq> None)"

text \<open>
  \<^verbatim>\<open>_load(content)\<close>, on the state that \<^verbatim>\<open>__init__\<close> has just made (\<^verbatim>\<open>tree\<close> and \<^verbatim>\<open>_current\<close>
  both \<^verbatim>\<open>None\<close>); with no content it reads the file.
\<close>

definition load_content :: "arrow \<Rightarrow> content \<Rightarrow> watson" where
  "load_content now c =
     current_set now (c_current c)
       \<lparr>tree = (case c_projects c of None \<Rightarrow> [] | Some ps \<Rightarrow> ps), current = None\<rparr>"

definition load ::
  "(string \<Rightarrow> json_result) \<Rightarrow> string \<Rightarrow> file_state \<Rightarrow> arrow \<Rightarrow> content option \<Rightarrow> error + watson" where
  "load json_load filename file now c =
     (case c of
        Some c' \<Rightarrow> Inr (load_content now c')
      | None \<Rightarrow>
          (case load_watson_file json_load filename file of
             Inl e \<Rightarrow> Inl e
           | Inr (Dict c') \<Rightarrow> Inr (load_content now c')
           | Inr NotDict \<Rightarrow> Inl AttributeError))"

definition dump :: "watson \<Rightarrow> content" where
  "dump w =
     (let content = \<lparr>c_projects = Some (tree w), c_current = None\<rparr> in
      if is_started w then
        (let c = the (current_get w) in
         content\<lparr>c_current := Some \<lparr>doc_project = Some (cur_project c),
           doc_start = Some (DInt (format_date (cur_start c)))\<rparr>\<rparr>)
      else content)"

subsection \<open>The project tree\<close>

text \<open>Python's \<^verbatim>\<open>s.split(sep)\<close> for a separator of one character: never an empty list.\<close>

fun split_on :: "char \<Rightarrow> string \<Rightarrow> string list" where
  "split_on sep [] = [[]]"
| "split_on sep (c # cs) =
     (if c = sep then [] # split_on sep cs
      else (case split_on sep cs of [] \<Rightarrow> [[c]] | s # ss \<Rightarrow> (c # s) # ss))"

text \<open>
  \<^verbatim>\<open>project(name)\<close> walks down the tree along the segments of the name, creates each node
  that is missing, and returns a reference to the last node. Its callers change the node
  through that reference. Here the change is the function \<open>f\<close>, applied to the last
  node where the walk ends; the result is the tree after the walk and the change.
\<close>

fun walk :: "(project \<Rightarrow> project) \<Rightarrow> string list \<Rightarrow> projects_dict \<Rightarrow> projects_dict" where
  "walk f [] ps = ps"
| "walk f (name # names) ps =
     (let child = (case map_of ps name of None \<Rightarrow> Project [] [] | Some c \<Rightarrow> c) in
      AList.update name
        (if names = [] then f child
         else Project (node_frames child) (walk f names (node_projects child)))
        ps)"

definition project :: "string \<Rightarrow> watson \<Rightarrow> watson" where
  "project name w = w\<lparr>tree := walk (\<lambda>n. n) (split_on CHR ''/'' name) (tree w)\<rparr>"

text \<open>What a reference to the node at a path reads: the node, when the path leads to one.\<close>

fun node_at :: "string list \<Rightarrow> projects_dict \<Rightarrow> project option" where
  "node_at [] ps = None"
| "node_at (name # names) ps =
     (case map_of ps name of
        None \<Rightarrow> None
      | Some child \<Rightarrow> if names = [] then Some child else node_at names (node_projects child))"

definition project_node :: "string \<Rightarrow> watson \<Rightarrow> project option" where
  "project_node name w = node_at (split_on CHR ''/'' name) (tree (project name w))"

fun get_projects :: "projects_dict \<Rightarrow> string \<Rightarrow> string list" where
  "get_projects [] parent = []"
| "get_projects ((name, Project fs ps) # rest) parent =
     (parent @ name) # get_projects ps (parent @ name @ ''/'') @ get_projects rest parent"

definition projects :: "watson \<Rightarrow> string list" where
  "projects w = sort (get_projects (tree w) [])"

text \<open>
  \<^verbatim>\<open>add_frame\<close> builds the dictionary of the new frame (a message that is \<^verbatim>\<open>None\<close> or empty
  leaves no key) and appends it to the frames of the node that \<^verbatim>\<open>project\<close> returns.
\<close>

definition new_frame :: "date \<Rightarrow> date \<Rightarrow> string option \<Rightarrow> raw_frame" where
  "new_frame start stop message =
     \<lparr>rf_start = format_date start, rf_stop = format_date stop,
      rf_message = (case message of None \<Rightarrow> None | Some m \<Rightarrow> if m = [] then None else Some m),
      rf_id = None\<rparr>"

definition append_frame :: "raw_frame \<Rightarrow> project \<Rightarrow> project" where
  "append_frame frame n = Project (node_frames n @ [frame]) (node_projects n)"

definition add_frame :: "string \<Rightarrow> date \<Rightarrow> date \<Rightarrow> string option \<Rightarrow> watson \<Rightarrow> watson" where
  "add_frame name start stop message w =
     w\<lparr>tree := walk (append_frame (new_frame start stop message))
                  (split_on CHR ''/'' name) (tree w)\<rparr>"

subsection \<open>The session\<close>

text \<open>
  \<^verbatim>\<open>start\<close>, \<^verbatim>\<open>stop\<close> and \<^verbatim>\<open>cancel\<close> return what the getter of \<^verbatim>\<open>current\<close> gave them, and the
  state. The project given to \<^verbatim>\<open>start\<close> is a string or \<^verbatim>\<open>None\<close>: \<^verbatim>\<open>not project\<close> is true of
  \<^verbatim>\<open>None\<close> and of the empty string, and of no other string.
\<close>

definition start :: "arrow \<Rightarrow> string option \<Rightarrow> watson \<Rightarrow> error + (cur option \<times> watson)" where
  "start now name w =
     (if is_started w then Inl (AlreadyStarted (cur_project (the (current_get w))))
      else
        (case name of
           None \<Rightarrow> Inl NoProjectGiven
         | Some p \<Rightarrow>
             if p = [] then Inl NoProjectGiven
             else
               (let w' = current_set now (Some \<lparr>doc_project = Some p, doc_start = None\<rparr>) w
                in Inr (current_get w', w'))))"

definition stop :: "arrow \<Rightarrow> string option \<Rightarrow> watson \<Rightarrow> error + (cur option \<times> watson)" where
  "stop now message w =
     (if \<not> is_started w then Inl NoProjectStarted
      else
        (let old = current_get w;
             w' = add_frame (cur_project (the old)) (cur_start (the old)) (DArrow now) message w;
             w'' = current_set now None w'
         in Inr (old, w'')))"

definition cancel :: "arrow \<Rightarrow> watson \<Rightarrow> error + (cur option \<times> watson)" where
  "cancel now w =
     (if \<not> is_started w then Inl NoProjectStarted
      else
        (let old_current = current_get w;
             w' = current_set now None w
         in Inr (old_current, w')))"

subsection \<open>Listing the frames\<close>

text \<open>
  The dictionary that \<^verbatim>\<open>frames\<close> builds for one stored frame of the project called \<open>name\<close>
  (the names of the ancestors and its own, joined by slashes).
\<close>

definition frame_entry :: "string \<Rightarrow> raw_frame \<Rightarrow> pydict" where
  "frame_entry name raw_frame =
     [(''project'', PStr name),
      (''id'', (case rf_id raw_frame of None \<Rightarrow> PNone | Some v \<Rightarrow> v)),
      (''start'', PArrow (parse_date (rf_start raw_frame))),
      (''stop'', PArrow (parse_date (rf_stop raw_frame)))]"

fun get_frames :: "projects_dict \<Rightarrow> string \<Rightarrow> pydict list" where
  "get_frames [] ancestors = []"
| "get_frames ((name, Project fs ps) # rest) ancestors =
     map (frame_entry (ancestors @ name)) fs
       @ get_frames ps (ancestors @ name @ ''/'')
       @ get_frames rest ancestors"

text \<open>
  Arrow objects compare as their UTC instants do. \<^verbatim>\<open>sorted\<close> is a stable sort by the key, as
  \<open>sort_key\<close> is.
\<close>

fun instant :: "pyval \<Rightarrow> int" where
  "instant (PArrow a) = utc_micros a"

definition start_key :: "pydict \<Rightarrow> int" where
  "start_key e = instant (getitem e ''start'')"

definition frames :: "watson \<Rightarrow> pydict list" where
  "frames w = sort_key start_key (get_frames (tree w) [])"

subsection \<open>Pushing to the remote server\<close>

text \<open>
  The property \<^verbatim>\<open>config\<close> reads the section \<^verbatim>\<open>crick\<close> of the configuration file: the two
  options may be there or not.
\<close>

record crick =
  crick_url :: "string option"
  crick_token :: "string option"

definition config :: "crick \<Rightarrow> error + (string \<times> string)" where
  "config c =
     (case crick_url c of
        None \<Rightarrow> Inl MissingCrickConfig
      | Some u \<Rightarrow>
          (case crick_token c of None \<Rightarrow> Inl MissingCrickConfig | Some t \<Rightarrow> Inr (u, t)))"

text \<open>
  A request is its method, its URL, the value that \<^verbatim>\<open>json.dumps\<close> serialises into its body
  and its headers. The server is a function from the request to the response;
  \<open>None\<close> is \<^verbatim>\<open>requests.ConnectionError\<close>.
\<close>

datatype request =
    Post string pyval "(string \<times> string) list"
  | Put string pyval "(string \<times> string) list"

record response =
  status_code :: int
  json :: pyval

text \<open>What \<^verbatim>\<open>zip\<close> iterates over: a list, the keys of a dictionary, the characters of a string.\<close>

fun py_iter :: "pyval \<Rightarrow> pyval list option" where
  "py_iter (PList xs) = Some xs"
| "py_iter (PDict d) = Some (map (\<lambda>kv. PStr (fst kv)) d)"
| "py_iter (PStr s) = Some (map (\<lambda>c. PStr [c]) s)"
| "py_iter v = None"

text \<open>\<^verbatim>\<open>f['project'].split('/')\<close>: only a string has the method.\<close>

fun str_split :: "pyval \<Rightarrow> pyval" where
  "str_split (PStr s) = PList (map PStr (split_on CHR ''/'' s))"

text \<open>The dictionary that \<^verbatim>\<open>push\<close> builds from an entry \<open>f\<close> of \<^verbatim>\<open>self.frames()\<close>.\<close>

definition push_frame :: "(pyval \<Rightarrow> string) \<Rightarrow> pydict \<Rightarrow> pydict" where
  "push_frame py_str f =
     [(''id'', dict_get f ''id''),
      (''start'', PStr (py_str (getitem f ''start''))),
      (''stop'', PStr (py_str (getitem f ''stop''))),
      (''project'', str_split (getitem f ''project''))]"

text \<open>
  The loop over \<^verbatim>\<open>zip(new_frames, ids)\<close>: it stops at the end of the shorter sequence, and
  the dictionaries it has not reached stay as they were.
\<close>

fun assign_ids :: "pydict list \<Rightarrow> pyval list \<Rightarrow> pydict list" where
  "assign_ids [] ids = []"
| "assign_ids (frame # rest) [] = frame # rest"
| "assign_ids (frame # rest) (i # ids) =
     AList.delete ''project'' (AList.update ''id'' i frame) # assign_ids rest ids"

text \<open>The block under \<^verbatim>\<open>if new_frames:\<close>: the requests sent, and the error or the frames.\<close>

definition create_frames ::
  "(request \<Rightarrow> response option) \<Rightarrow> string \<Rightarrow> (string \<times> string) list \<Rightarrow> pydict list
    \<Rightarrow> request list \<times> (error + pydict list)" where
  "create_frames remote dest headers new_frames =
     (let req = Post dest (PDict [(''frames'', PList (map PDict new_frames))]) headers in
      case remote req of
        None \<Rightarrow> ([req], Inl UnableToReachServer)
      | Some r \<Rightarrow>
          if status_code r \<noteq> 201 then ([req], Inl (RemoteServerError (json r)))
          else
            (case py_iter (json r) of
               None \<Rightarrow> ([req], Inl TypeError)
             | Some ids \<Rightarrow> ([req], Inr (assign_ids new_frames ids))))"

text \<open>The block under \<^verbatim>\<open>if existing_frames:\<close>.\<close>

definition update_frames ::
  "(request \<Rightarrow> response option) \<Rightarrow> string \<Rightarrow> (string \<times> string) list \<Rightarrow> pydict list
    \<Rightarrow> request list \<times> error option" where
  "update_frames remote dest headers existing_frames =
     (let req = Put dest (PDict [(''frames'', PList (map PDict existing_frames))]) headers in
      case remote req of
        None \<Rightarrow> ([req], Some UnableToReachServer)
      | Some r \<Rightarrow>
          if status_code r \<noteq> 200 then ([req], Some (RemoteServerError (json r)))
          else ([req], None))"

text \<open>
  The three tuples that \<^verbatim>\<open>push\<close> builds before it sends anything: a dictionary for every
  entry of \<^verbatim>\<open>self.frames()\<close>, those of them whose id is \<^verbatim>\<open>None\<close>, and (when forced) those
  whose id is not.
\<close>

definition push_frames :: "(pyval \<Rightarrow> string) \<Rightarrow> watson \<Rightarrow> pydict list" where
  "push_frames py_str w = map (push_frame py_str) (frames w)"

definition new_frames :: "(pyval \<Rightarrow> string) \<Rightarrow> watson \<Rightarrow> pydict list" where
  "new_frames py_str w = filter (\<lambda>f. getitem f ''id'' = PNone) (push_frames py_str w)"

definition existing_frames :: "(pyval \<Rightarrow> string) \<Rightarrow> bool \<Rightarrow> watson \<Rightarrow> pydict list" where
  "existing_frames py_str force w =
     (if force then filter (\<lambda>f. getitem f ''id'' \<noteq> PNone) (push_frames py_str w) else [])"

definition push_headers :: "string \<Rightarrow> (string \<times> string) list" where
  "push_headers token =
     [(''content-type'', ''application/json''), (''Authorization'', ''Token '' @ token)]"

text \<open>
  \<^verbatim>\<open>push(force)\<close> gives the state of the object after the call, the requests it sent in
  order, and the error raised or the value returned. Every dictionary the method assigns
  to is one that its own generator expression has built from the entries of
  \<^verbatim>\<open>self.frames()\<close>, themselves built by \<^verbatim>\<open>get_frames\<close>; no statement assigns to \<^verbatim>\<open>self\<close>
  or to a dictionary of \<^verbatim>\<open>self.tree\<close>, so the state comes back as it was.
\<close>

definition push ::
  "(pyval \<Rightarrow> string) \<Rightarrow> crick \<Rightarrow> (request \<Rightarrow> response option) \<Rightarrow> bool \<Rightarrow> watson
    \<Rightarrow> watson \<times> request list \<times> (error + pydict list)" where
  "push py_str cfg remote force w =
     (case config cfg of
        Inl e \<Rightarrow> (w, [], Inl e)
      | Inr (url, token) \<Rightarrow>
          (let dest = url @ ''/frames/'';
               headers = push_headers token;
               created =
                 (if new_frames py_str w \<noteq> []
                  then create_frames remote dest headers (new_frames py_str w)
                  else ([], Inr (new_frames py_str w)))
           in case snd created of
                Inl e \<Rightarrow> (w, fst created, Inl e)
              | Inr returned \<Rightarrow>
                  if existing_frames py_str force w \<noteq> [] then
                    (let updated =
                           update_frames remote dest headers (existing_frames py_str force w)
                     in case snd updated of
                          Some e \<Rightarrow> (w, fst created @ fst updated, Inl e)
                        | None \<Rightarrow> (w, fst created @ fst updated, Inr returned))
                  else (w, fst created, Inr returned)))"

subsection \<open>The nodes of the tree by their paths\<close>

text \<open>\<^verbatim>\<open>'/'.join(segments)\<close>: the name that \<^verbatim>\<open>get_frames\<close> and \<^verbatim>\<open>get_projects\<close> build for a node.\<close>

fun join_path :: "string list \<Rightarrow> string" where
  "join_path [] = []"
| "join_path [s] = s"
| "join_path (s # t # ts) = s @ ''/'' @ join_path (t # ts)"

text \<open>
  Every node of the tree with its path (the list of the names from the root down to it),
  parents before children and the children of a node in the order of its dictionary.
\<close>

fun nodes :: "projects_dict \<Rightarrow> string list \<Rightarrow> (string list \<times> project) list" where
  "nodes [] path = []"
| "nodes ((name, Project fs ps) # rest) path =
     (path @ [name], Project fs ps) # nodes ps (path @ [name]) @ nodes rest path"

text \<open>
  The frames in the order of the traversal as the specification words it: node after node
  in that order, the frames of a node in the order they were inserted, each labelled with
  the path of its node joined by slashes.
\<close>

definition traversal :: "projects_dict \<Rightarrow> pydict list" where
  "traversal ps =
     concat (map (\<lambda>pn. map (frame_entry (join_path (fst pn))) (node_frames (snd pn))) (nodes ps []))"

text \<open>The keys of a Python dictionary are distinct, at every level of the tree.\<close>

fun wf_dict :: "projects_dict \<Rightarrow> bool" where
  "wf_dict [] = True"
| "wf_dict ((name, Project fs ps) # rest) = (map_of rest name = None \<and> wf_dict ps \<and> wf_dict rest)"

text \<open>
  The tree with the message of every stored frame removed: what the frames would be had no
  message ever been given.
\<close>

fun strip_messages :: "projects_dict \<Rightarrow> projects_dict" where
  "strip_messages [] = []"
| "strip_messages ((name, Project fs ps) # rest) =
     (name, Project (map (\<lambda>f. f\<lparr>rf_message := None\<rparr>) fs) (strip_messages ps))
       # strip_messages rest"

subsection \<open>Example inputs\<close>

text \<open>
  A parser that accepts the one document \<^verbatim>\<open>{}\<close>, a clock reading in a timezone one hour
  east of UTC, and a rendering of Python values as strings that tells two Arrow objects
  apart by their wall-clock seconds.
\<close>

definition example_json_load :: "string \<Rightarrow> json_result" where
  "example_json_load s =
     (if s = ''{}'' then Parsed (Dict empty_content) else ValueError ''Expecting value'')"

definition example_now :: arrow where
  "example_now = \<lparr>wall_micros = 7200500000, utcoffset = 3600\<rparr>"

text \<open>
  A store with no session, and a store where a session on the project \<^verbatim>\<open>play\<close> runs (started
  at second 100) and that project holds one frame.
\<close>

definition example_idle :: watson where
  "example_idle = \<lparr>tree = [], current = None\<rparr>"

definition example_running :: watson where
  "example_running =
     \<lparr>tree = [(''play'', Project [\<lparr>rf_start = 10, rf_stop = 20, rf_message = None, rf_id = None\<rparr>] [])],
      current = Some \<lparr>cur_project = ''play'', cur_start = DInt 100\<rparr>\<rparr>"

text \<open>
  A store with three projects, \<^verbatim>\<open>b\<close>, its child \<^verbatim>\<open>b/x\<close> and \<^verbatim>\<open>a\<close>, in this order of insertion;
  a frame of \<^verbatim>\<open>b\<close> and a frame of \<^verbatim>\<open>a\<close> start at the same second, and the second frame of
  \<^verbatim>\<open>a\<close> has an id and a message.
\<close>

definition example_store :: watson where
  "example_store =
     \<lparr>tree =
        [(''b'', Project [\<lparr>rf_start = 5, rf_stop = 6, rf_message = None, rf_id = None\<rparr>]
                  [(''x'', Project [\<lparr>rf_start = 3, rf_stop = 4, rf_message = None, rf_id = None\<rparr>] [])]),
         (''a'', Project [\<lparr>rf_start = 5, rf_stop = 9, rf_message = None, rf_id = None\<rparr>,
                          \<lparr>rf_start = 1, rf_stop = 2, rf_message = Some ''early'', rf_id = Some (PInt 42)\<rparr>]
                  [])],
      current = None\<rparr>"

text \<open>
  A configuration with both options, a server that answers every creation with status 201
  and the one id 7 and every update with status 200, and a rendering of Python values that
  agrees with \<^verbatim>\<open>str\<close> on the Arrow objects of the seconds 10 and 20 in UTC.
\<close>

definition example_config :: crick where
  "example_config = \<lparr>crick_url = Some ''http://crick'', crick_token = Some ''secret''\<rparr>"

definition example_remote :: "request \<Rightarrow> response option" where
  "example_remote r =
     (case r of
        Post dest body headers \<Rightarrow> Some \<lparr>status_code = 201, json = PList [PInt 7]\<rparr>
      | Put dest body headers \<Rightarrow> Some \<lparr>status_code = 200, json = PNone\<rparr>)"

definition example_str :: "pyval \<Rightarrow> string" where
  "example_str v =
     (case v of
        PArrow a \<Rightarrow>
          (if a = \<lparr>wall_micros = 10000000, utcoffset = 0\<rparr> then ''1970-01-01T00:00:10+00:00''
           else if a = \<lparr>wall_micros = 20000000, utcoffset = 0\<rparr> then ''1970-01-01T00:00:20+00:00''
           else ''another instant'')
      | _ \<Rightarrow> ''not an Arrow'')"

subsection \<open>Properties of the time codec\<close>

lemma timestamp_utcfromtimestamp: "timestamp (utcfromtimestamp t) = t"
  by (simp add: timestamp_def utc_micros_def utcfromtimestamp_def)

lemma format_date_DInt: "format_date (DInt t) = t"
  by (simp add: arrow_get_def timestamp_utcfromtimestamp)

text \<open>
  Claim C7. Formatting any Arrow \<open>I\<close> and parsing the number back gives an Arrow in UTC
  that formats to the same number and lies at the start of the second that holds \<open>I\<close>:
  at or before \<open>I\<close> and less than one second (1000000 microseconds) away, whatever the
  microseconds and the timezone offset of \<open>I\<close> are.
\<close>

theorem timestamp_round_trip:
  "format_date (DArrow (parse_date (format_date (DArrow I)))) = format_date (DArrow I)
   \<and> utc_micros (parse_date (format_date (DArrow I))) = 1000000 * (utc_micros I div 1000000)
   \<and> utc_micros (parse_date (format_date (DArrow I))) \<le> utc_micros I
   \<and> utc_micros I < utc_micros (parse_date (format_date (DArrow I))) + 1000000
   \<and> utcoffset (parse_date (format_date (DArrow I))) = 0"
proof -
  let ?J = "parse_date (format_date (DArrow I))"
  have micros: "utc_micros ?J = 1000000 * (utc_micros I div 1000000)"
    by (simp add: parse_date_def utcfromtimestamp_def utc_micros_def timestamp_def)
  have same: "format_date (DArrow ?J) = format_date (DArrow I)"
    by (simp add: parse_date_def timestamp_utcfromtimestamp)
  have lower: "1000000 * (utc_micros I div 1000000) \<le> utc_micros I"
    by simp
  have upper: "utc_micros I < 1000000 * (utc_micros I div 1000000) + 1000000"
  proof -
    have "utc_micros I mod 1000000 < 1000000" by simp
    moreover have "utc_micros I = 1000000 * (utc_micros I div 1000000) + utc_micros I mod 1000000"
      by simp
    ultimately show ?thesis by linarith
  qed
  have off: "utcoffset ?J = 0"
    by (simp add: parse_date_def utcfromtimestamp_def)
  from same micros lower upper off show ?thesis by simp
qed

subsection \<open>The session state\<close>

lemma current_get_eq: "current_get w = current w"
  by (simp add: current_get_def split: option.splits)

lemma is_started_eq: "is_started w = (current w \<noteq> None)"
  by (simp add: is_started_def current_get_eq)


subsection \<open>Dumping and loading\<close>



text \<open>
  Claim C3. With no content given, \<open>load\<close> reads the file. A file that cannot be opened
  gives the empty store. An empty file, which the JSON parser rejects, gives the empty
  store. Any other text that the parser rejects raises the error "Invalid Watson file".
  A dictionary that parses is loaded as it is; one without \<^verbatim>\<open>projects\<close> has an empty
  tree, and one without \<^verbatim>\<open>current\<close> has no running session.
\<close>

theorem load_error_partition:
  "load json_load filename NoFile now None = Inr \<lparr>tree = [], current = None\<rparr>
   \<and> (json_load [] = ValueError e \<longrightarrow>
        load json_load filename (FileText []) now None = Inr \<lparr>tree = [], current = None\<rparr>)
   \<and> (json_load s = ValueError e \<and> s \<noteq> [] \<longrightarrow>
        load json_load filename (FileText s) now None = Inl (InvalidWatsonFile filename e))
   \<and> (json_load s = Parsed (Dict c) \<longrightarrow>
        load json_load filename (FileText s) now None = Inr (load_content now c))
   \<and> load json_load filename file now (Some c) = Inr (load_content now c)
   \<and> (c_projects c = None \<longrightarrow> tree (load_content now c) = [])
   \<and> (c_current c = None \<longrightarrow> current (load_content now c) = None)"
  by (simp add: load_def load_watson_file_def load_content_def empty_content_def current_set_def
      split: option.splits)

text \<open>
  A text that parses to a JSON value other than an object is not a failure of the parser:
  \<^verbatim>\<open>json.load\<close> returns, and \<^verbatim>\<open>_load\<close> fails on \<^verbatim>\<open>content.get\<close> with Python's own error.
\<close>

lemma load_not_dict:
  "json_load s = Parsed NotDict \<Longrightarrow>
     load json_load filename (FileText s) now None = Inl AttributeError"
  by (simp add: load_def load_watson_file_def)

theorem load_error_partition_witness:
  "load example_json_load ''watson'' (FileText []) example_now None
     = Inr \<lparr>tree = [], current = None\<rparr>
   \<and> load example_json_load ''watson'' (FileText ''{'') example_now None
     = Inl (InvalidWatsonFile ''watson'' ''Expecting value'')
   \<and> load example_json_load ''watson'' (FileText ''{}'') example_now None
     = Inr (load_content example_now empty_content)
   \<and> tree (load_content example_now empty_content) = []
   \<and> current (load_content example_now empty_content) = None"
  using load_error_partition [of example_json_load "''watson''" example_now "''Expecting value''"
      "''{''" empty_content]
    load_error_partition [of example_json_load "''watson''" example_now "''Expecting value''"
      "''{}''" empty_content]
  by (simp add: example_json_load_def empty_content_def)

subsection \<open>Walking the tree\<close>

lemma split_on_nonempty: "split_on sep s \<noteq> []"
  by (induction s) (auto split: list.splits)

lemma join_path_Cons: "ss \<noteq> [] \<Longrightarrow> join_path (s # ss) = s @ ''/'' @ join_path ss"
  by (cases ss) simp_all

lemma join_path_split_on: "join_path (split_on CHR ''/'' s) = s"
proof (induction s)
  case Nil
  show ?case by simp
next
  case (Cons c cs)
  show ?case
  proof (cases "c = CHR ''/''")
    case True
    with Cons show ?thesis by (simp add: join_path_Cons split_on_nonempty)
  next
    case False
    obtain t ts where sp: "split_on CHR ''/'' cs = t # ts"
      using split_on_nonempty [of "CHR ''/''" cs] by (cases "split_on CHR ''/'' cs") auto
    with Cons False show ?thesis by (cases ts) simp_all
  qed
qed

lemma update_absent: "map_of ps k = None \<Longrightarrow> AList.update k v ps = ps @ [(k, v)]"
  by (induction ps) (auto split: if_splits)

lemma update_present:
  "map_of ps k = Some old \<Longrightarrow>
     \<exists>pre post. ps = pre @ (k, old) # post \<and> AList.update k v ps = pre @ (k, v) # post"
proof (induction ps)
  case Nil
  then show ?case by simp
next
  case (Cons p ps)
  show ?case
  proof (cases "fst p = k")
    case True
    with Cons.prems have "p = (k, old)" by (cases p) simp
    then have "p # ps = [] @ (k, old) # ps \<and> AList.update k v (p # ps) = [] @ (k, v) # ps"
      by simp
    then show ?thesis by blast
  next
    case False
    with Cons.prems have "map_of ps k = Some old" by (cases p) (simp split: if_splits)
    from Cons.IH [OF this] obtain pre post
      where "ps = pre @ (k, old) # post" "AList.update k v ps = pre @ (k, v) # post" by blast
    with False have "p # ps = (p # pre) @ (k, old) # post
        \<and> AList.update k v (p # ps) = (p # pre) @ (k, v) # post"
      by (cases p) simp
    then show ?thesis by blast
  qed
qed

lemma get_frames_append: "get_frames (xs @ ys) anc = get_frames xs anc @ get_frames ys anc"
  by (induction xs anc rule: get_frames.induct) simp_all

lemma get_frames_single:
  "get_frames [(k, n)] anc =
     map (frame_entry (anc @ k)) (node_frames n) @ get_frames (node_projects n) (anc @ k @ ''/'')"
  by (cases n) simp

lemma get_frames_Cons: "get_frames (p # ps) anc = get_frames [p] anc @ get_frames ps anc"
  using get_frames_append [of "[p]" ps anc] by simp

lemma mset_get_frames_update:
  "mset (get_frames (AList.update k v ps) anc)
     + mset (get_frames [(k, (case map_of ps k of None \<Rightarrow> Project [] [] | Some c \<Rightarrow> c))] anc)
   = mset (get_frames ps anc) + mset (get_frames [(k, v)] anc)"
proof (cases "map_of ps k")
  case None
  then show ?thesis by (simp add: update_absent get_frames_append)
next
  case (Some old)
  from update_present [OF Some, of v] obtain pre post
    where ps: "ps = pre @ (k, old) # post" and up: "AList.update k v ps = pre @ (k, v) # post"
    by blast
  have a: "get_frames (pre @ (k, v) # post) anc
      = get_frames pre anc @ get_frames [(k, v)] anc @ get_frames post anc"
    using get_frames_append [of pre "(k, v) # post" anc] get_frames_Cons [of "(k, v)" post anc]
    by simp
  have b: "get_frames (pre @ (k, old) # post) anc
      = get_frames pre anc @ get_frames [(k, old)] anc @ get_frames post anc"
    using get_frames_append [of pre "(k, old) # post" anc] get_frames_Cons [of "(k, old)" post anc]
    by simp
  have "mset (get_frames (AList.update k v ps) anc) + mset (get_frames [(k, old)] anc)
      = mset (get_frames ps anc) + mset (get_frames [(k, v)] anc)"
    unfolding up unfolding ps a b by simp
  with Some show ?thesis by simp
qed

lemma mset_get_frames_walk:
  "segs \<noteq> [] \<Longrightarrow>
   mset (get_frames (walk (append_frame fr) segs ps) anc)
     = mset (get_frames ps anc) + {#frame_entry (anc @ join_path segs) fr#}"
proof (induction segs arbitrary: ps anc)
  case Nil
  then show ?case by simp
next
  case (Cons name names)
  let ?f = "append_frame fr"
  let ?child = "case map_of ps name of None \<Rightarrow> Project [] [] | Some c \<Rightarrow> c"
  let ?new = "if names = [] then ?f ?child
              else Project (node_frames ?child) (walk ?f names (node_projects ?child))"
  have w: "walk ?f (name # names) ps = AList.update name ?new ps"
    by (simp add: Let_def)
  have new: "mset (get_frames [(name, ?new)] anc)
      = mset (get_frames [(name, ?child)] anc) + {#frame_entry (anc @ join_path (name # names)) fr#}"
  proof (cases "names = []")
    case True
    then show ?thesis by (simp add: get_frames_single append_frame_def)
  next
    case False
    from Cons.IH [OF False, of "node_projects ?child" "anc @ name @ ''/''"] False
    show ?thesis by (simp add: get_frames_single join_path_Cons)
  qed
  from mset_get_frames_update [of name ?new ps anc]
  have "mset (get_frames (AList.update name ?new ps) anc) + mset (get_frames [(name, ?child)] anc)
      = mset (get_frames ps anc) + mset (get_frames [(name, ?new)] anc)" .
  then have "mset (get_frames (AList.update name ?new ps) anc) + mset (get_frames [(name, ?child)] anc)
      = (mset (get_frames ps anc) + {#frame_entry (anc @ join_path (name # names)) fr#})
          + mset (get_frames [(name, ?child)] anc)"
    unfolding new by (simp add: ac_simps)
  then have "mset (get_frames (AList.update name ?new ps) anc)
      = mset (get_frames ps anc) + {#frame_entry (anc @ join_path (name # names)) fr#}"
    by (rule add_right_imp_eq)
  then show ?case unfolding w .
qed

lemma node_at_Nil: "node_at q [] = None"
  by (cases q) simp_all

lemma node_at_walk_same:
  "segs \<noteq> [] \<Longrightarrow>
   node_at segs (walk f segs ps)
     = Some (f (case node_at segs ps of None \<Rightarrow> Project [] [] | Some n \<Rightarrow> n))"
proof (induction segs arbitrary: ps)
  case Nil
  then show ?case by simp
next
  case (Cons name names)
  show ?case
  proof (cases "names = []")
    case True
    then show ?thesis by (simp add: update_conv' split: option.splits)
  next
    case False
    from Cons.IH [OF False] False show ?thesis
      by (simp add: update_conv' Let_def node_at_Nil split: option.splits)
  qed
qed

lemma node_at_walk_other:
  assumes keep: "\<And>n. node_projects (f n) = node_projects n"
  shows "\<not> prefix q segs \<Longrightarrow> node_at q (walk f segs ps) = node_at q ps"
proof (induction segs arbitrary: q ps)
  case Nil
  then show ?case by simp
next
  case (Cons name names)
  show ?case
  proof (cases q)
    case Nil
    then show ?thesis by simp
  next
    case (Cons k ks)
    show ?thesis
    proof (cases "k = name")
      case False
      with Cons show ?thesis by (simp add: update_conv' Let_def)
    next
      case True
      with Cons Cons.prems have np: "\<not> prefix ks names" by simp
      then have ks: "ks \<noteq> []" by auto
      show ?thesis
      proof (cases "names = []")
        case True
        with Cons \<open>k = name\<close> ks show ?thesis
          by (simp add: update_conv' Let_def keep node_at_Nil split: option.splits)
      next
        case False
        with Cons \<open>k = name\<close> ks Cons.IH [OF np] show ?thesis
          by (simp add: update_conv' Let_def node_at_Nil split: option.splits)
      qed
    qed
  qed
qed

lemma walk_existing: "node_at segs ps = Some n \<Longrightarrow> walk (\<lambda>n. n) segs ps = ps"
proof (induction segs arbitrary: ps)
  case Nil
  then show ?case by simp
next
  case (Cons name names)
  from Cons.prems obtain c where c: "map_of ps name = Some c"
    by (auto split: option.splits)
  show ?case
  proof (cases "names = []")
    case True
    with c show ?thesis by (simp add: update_triv)
  next
    case False
    with Cons.prems c have "node_at names (node_projects c) = Some n" by simp
    from Cons.IH [OF this] False c show ?thesis by (simp add: update_triv)
  qed
qed

lemma walk_idem: "walk (\<lambda>n. n) segs (walk (\<lambda>n. n) segs ps) = walk (\<lambda>n. n) segs ps"
proof (cases "segs = []")
  case True
  then show ?thesis by simp
next
  case False
  from node_at_walk_same [OF False, of "\<lambda>n. n" ps] walk_existing show ?thesis by blast
qed

subsection \<open>Starting, stopping and cancelling\<close>

lemma mset_frames: "mset (frames w) = mset (get_frames (tree w) [])"
  by (simp add: frames_def)

lemma stop_running:
  "current w = Some c \<Longrightarrow>
   stop now message w =
     Inr (Some c,
          \<lparr>tree = walk (append_frame (new_frame (cur_start c) (DArrow now) message))
                    (split_on CHR ''/'' (cur_project c)) (tree w),
           current = None\<rparr>)"
  by (simp add: stop_def is_started_eq current_get_eq add_frame_def current_set_def Let_def)

lemma mset_frames_add_frame:
  "mset (frames (add_frame name s t message w))
     = mset (frames w) + {#frame_entry name (new_frame s t message)#}"
  using mset_get_frames_walk [OF split_on_nonempty, of "new_frame s t message"
      "CHR ''/''" name "tree w" "[]"]
  by (simp add: mset_frames add_frame_def join_path_split_on)

text \<open>
  Claim C4, as amended. While a session runs, \<open>start\<close> fails with "already started",
  whatever the name. While none runs, \<open>start\<close> fails with "No project given" when the
  name is \<^verbatim>\<open>None\<close> or the empty string and on no other name (a name of blanks starts a
  session as any name does), and \<open>stop\<close> and \<open>cancel\<close> fail with "No project started". A \<open>stop\<close> while a session runs succeeds:
  afterwards no session runs and the frames listed are those listed before and exactly one
  more, under the project that was stopped. \<open>start\<close> and \<open>cancel\<close> leave the tree as it was.
\<close>

theorem session_exclusivity:
  "(current w = Some c \<longrightarrow> start now name w = Inl (AlreadyStarted (cur_project c)))
   \<and> (current w = None \<longrightarrow>
        start now None w = Inl NoProjectGiven \<and> start now (Some []) w = Inl NoProjectGiven)
   \<and> (current w = None \<and> p \<noteq> [] \<longrightarrow>
        start now (Some p) w =
          Inr (Some \<lparr>cur_project = p, cur_start = DArrow now\<rparr>,
               w\<lparr>current := Some \<lparr>cur_project = p, cur_start = DArrow now\<rparr>\<rparr>))
   \<and> (current w = None \<longrightarrow>
        stop now message w = Inl NoProjectStarted \<and> cancel now w = Inl NoProjectStarted)
   \<and> (current w = Some c \<longrightarrow>
        (\<exists>w'. stop now message w = Inr (Some c, w')
           \<and> \<not> is_started w'
           \<and> mset (frames w') = mset (frames w)
               + {#frame_entry (cur_project c) (new_frame (cur_start c) (DArrow now) message)#}
           \<and> length (frames w') = length (frames w) + 1))
   \<and> (current w = Some c \<longrightarrow> cancel now w = Inr (Some c, w\<lparr>current := None\<rparr>))
   \<and> is_started w = (current w \<noteq> None)"
proof -
  have a: "current w = Some c \<longrightarrow> start now name w = Inl (AlreadyStarted (cur_project c))"
    by (simp add: start_def is_started_eq current_get_eq)
  have b: "current w = None \<longrightarrow>
        start now None w = Inl NoProjectGiven \<and> start now (Some []) w = Inl NoProjectGiven"
    by (simp add: start_def is_started_eq)
  have c: "current w = None \<and> p \<noteq> [] \<longrightarrow>
        start now (Some p) w =
          Inr (Some \<lparr>cur_project = p, cur_start = DArrow now\<rparr>,
               w\<lparr>current := Some \<lparr>cur_project = p, cur_start = DArrow now\<rparr>\<rparr>)"
    by (simp add: start_def is_started_eq current_set_def current_get_eq Let_def)
  have d: "current w = None \<longrightarrow>
        stop now message w = Inl NoProjectStarted \<and> cancel now w = Inl NoProjectStarted"
    by (simp add: stop_def cancel_def is_started_eq)
  have e: "current w = Some c \<longrightarrow>
        (\<exists>w'. stop now message w = Inr (Some c, w')
           \<and> \<not> is_started w'
           \<and> mset (frames w') = mset (frames w)
               + {#frame_entry (cur_project c) (new_frame (cur_start c) (DArrow now) message)#}
           \<and> length (frames w') = length (frames w) + 1)"
  proof
    assume run: "current w = Some c"
    let ?fr = "new_frame (cur_start c) (DArrow now) message"
    let ?w' = "\<lparr>tree = walk (append_frame ?fr) (split_on CHR ''/'' (cur_project c)) (tree w),
               current = None\<rparr>"
    have s: "stop now message w = Inr (Some c, ?w')" by (rule stop_running [OF run])
    have i: "\<not> is_started ?w'" by (simp add: is_started_eq)
    have "?w' = (add_frame (cur_project c) (cur_start c) (DArrow now) message w)\<lparr>current := None\<rparr>"
      by (simp add: add_frame_def)
    then have "frames ?w' = frames (add_frame (cur_project c) (cur_start c) (DArrow now) message w)"
      by (simp add: frames_def)
    then have m: "mset (frames ?w') = mset (frames w) + {#frame_entry (cur_project c) ?fr#}"
      by (simp only: mset_frames_add_frame)
    have "size (mset (frames ?w')) = size (mset (frames w) + {#frame_entry (cur_project c) ?fr#})"
      by (simp only: m)
    then have l: "length (frames ?w') = length (frames w) + 1" by simp
    from s i m l show "\<exists>w'. stop now message w = Inr (Some c, w')
           \<and> \<not> is_started w'
           \<and> mset (frames w') = mset (frames w) + {#frame_entry (cur_project c) ?fr#}
           \<and> length (frames w') = length (frames w) + 1" by blast
  qed
  have f: "current w = Some c \<longrightarrow> cancel now w = Inr (Some c, w\<lparr>current := None\<rparr>)"
    by (simp add: cancel_def is_started_eq current_get_eq current_set_def Let_def)
  have g: "is_started w = (current w \<noteq> None)" by (rule is_started_eq)
  from a b c d e f g show ?thesis by blast
qed

theorem session_exclusivity_witness:
  "start example_now (Some ''work'') example_running = Inl (AlreadyStarted ''play'')
   \<and> start example_now None example_idle = Inl NoProjectGiven
   \<and> start example_now (Some []) example_idle = Inl NoProjectGiven
   \<and> start example_now (Some ''work'') example_idle =
        Inr (Some \<lparr>cur_project = ''work'', cur_start = DArrow example_now\<rparr>,
             \<lparr>tree = [], current = Some \<lparr>cur_project = ''work'', cur_start = DArrow example_now\<rparr>\<rparr>)
   \<and> stop example_now None example_idle = Inl NoProjectStarted
   \<and> cancel example_now example_idle = Inl NoProjectStarted
   \<and> (\<exists>w'. stop example_now None example_running
              = Inr (Some \<lparr>cur_project = ''play'', cur_start = DInt 100\<rparr>, w')
          \<and> \<not> is_started w'
          \<and> length (frames w') = length (frames example_running) + 1)
   \<and> cancel example_now example_running
        = Inr (Some \<lparr>cur_project = ''play'', cur_start = DInt 100\<rparr>,
               example_running\<lparr>current := None\<rparr>)"
proof -
  have run: "current example_running = Some \<lparr>cur_project = ''play'', cur_start = DInt 100\<rparr>"
    by (simp add: example_running_def)
  have idle: "current example_idle = None"
    by (simp add: example_idle_def)
  have w: "''work'' \<noteq> []" by simp
  from session_exclusivity [of example_running "\<lparr>cur_project = ''play'', cur_start = DInt 100\<rparr>"
      example_now "Some ''work''" "''work''" None] run
  have r: "start example_now (Some ''work'') example_running = Inl (AlreadyStarted ''play'')
      \<and> (\<exists>w'. stop example_now None example_running
              = Inr (Some \<lparr>cur_project = ''play'', cur_start = DInt 100\<rparr>, w')
          \<and> \<not> is_started w'
          \<and> length (frames w') = length (frames example_running) + 1)
      \<and> cancel example_now example_running
        = Inr (Some \<lparr>cur_project = ''play'', cur_start = DInt 100\<rparr>,
               example_running\<lparr>current := None\<rparr>)"
    by auto
  from session_exclusivity [of example_idle "\<lparr>cur_project = ''play'', cur_start = DInt 100\<rparr>"
      example_now "Some ''work''" "''work''" None] idle w
  have i: "start example_now None example_idle = Inl NoProjectGiven
      \<and> start example_now (Some []) example_idle = Inl NoProjectGiven
      \<and> start example_now (Some ''work'') example_idle =
        Inr (Some \<lparr>cur_project = ''work'', cur_start = DArrow example_now\<rparr>,
             example_idle\<lparr>current := Some \<lparr>cur_project = ''work'', cur_start = DArrow example_now\<rparr>\<rparr>)
      \<and> stop example_now None example_idle = Inl NoProjectStarted
      \<and> cancel example_now example_idle = Inl NoProjectStarted"
    by simp
  have "example_idle\<lparr>current := Some \<lparr>cur_project = ''work'', cur_start = DArrow example_now\<rparr>\<rparr>
      = \<lparr>tree = [], current = Some \<lparr>cur_project = ''work'', cur_start = DArrow example_now\<rparr>\<rparr>"
    by (simp add: example_idle_def)
  with r i show ?thesis by simp
qed

text \<open>
  The claim as it was written fails on a name of one blank: no session runs, and \<open>start\<close>
  starts one on that name.
\<close>

theorem start_blank_name_counterexample:
  "start example_now (Some '' '') example_idle =
     Inr (Some \<lparr>cur_project = '' '', cur_start = DArrow example_now\<rparr>,
          \<lparr>tree = [], current = Some \<lparr>cur_project = '' '', cur_start = DArrow example_now\<rparr>\<rparr>)"
  by (simp add: start_def is_started_def current_get_def current_set_def example_idle_def)

text \<open>
  Claim C5, as amended. \<open>stop\<close> on a store where the session \<open>c\<close> runs returns \<open>c\<close>: the
  project and the start of the session, as the state held them. The stop instant is not
  part of what it returns, which is the same whatever the clock shows. The state it leaves
  has no session, and its tree is the old tree with one frame appended to the frames of
  the node of the project (the node the walk finds or creates): the frame starts at the
  timestamp of the session's start and stops at the timestamp of the clock. Every node
  whose path is not a prefix of the project's path is as it was.
\<close>

theorem stop_returns_session:
  "current w = Some c \<longrightarrow>
     (\<exists>w'. stop now message w = Inr (Some c, w')
        \<and> current w' = None
        \<and> tree w' = walk (append_frame (new_frame (cur_start c) (DArrow now) message))
                      (split_on CHR ''/'' (cur_project c)) (tree w)
        \<and> node_at (split_on CHR ''/'' (cur_project c)) (tree w')
            = Some (append_frame (new_frame (cur_start c) (DArrow now) message)
                (case node_at (split_on CHR ''/'' (cur_project c)) (tree w) of
                   None \<Rightarrow> Project [] [] | Some n \<Rightarrow> n))
        \<and> (\<forall>q. \<not> prefix q (split_on CHR ''/'' (cur_project c)) \<longrightarrow>
              node_at q (tree w') = node_at q (tree w))
        \<and> rf_start (new_frame (cur_start c) (DArrow now) message) = format_date (cur_start c)
        \<and> rf_stop (new_frame (cur_start c) (DArrow now) message) = timestamp now
        \<and> (\<forall>now'. map_sum id fst (stop now' message w) = Inr (Some c)))"
proof
  assume run: "current w = Some c"
  let ?fr = "new_frame (cur_start c) (DArrow now) message"
  let ?segs = "split_on CHR ''/'' (cur_project c)"
  let ?w' = "\<lparr>tree = walk (append_frame ?fr) ?segs (tree w), current = None\<rparr>"
  have s: "stop now message w = Inr (Some c, ?w')" by (rule stop_running [OF run])
  have c: "current ?w' = None" by simp
  have t: "tree ?w' = walk (append_frame ?fr) ?segs (tree w)" by simp
  have n: "node_at ?segs (tree ?w')
      = Some (append_frame ?fr (case node_at ?segs (tree w) of None \<Rightarrow> Project [] [] | Some n \<Rightarrow> n))"
    by (simp add: node_at_walk_same [OF split_on_nonempty])
  have o: "\<forall>q. \<not> prefix q ?segs \<longrightarrow> node_at q (tree ?w') = node_at q (tree w)"
    using node_at_walk_other [of "append_frame ?fr" _ ?segs "tree w"]
    by (simp add: append_frame_def)
  have fs: "rf_start ?fr = format_date (cur_start c)" by (simp add: new_frame_def)
  have ft: "rf_stop ?fr = timestamp now" by (simp add: new_frame_def)
  have r: "\<forall>now'. map_sum id fst (stop now' message w) = Inr (Some c)"
    by (simp add: stop_running [OF run])
  from s c t n o fs ft r
  show "\<exists>w'. stop now message w = Inr (Some c, w')
        \<and> current w' = None
        \<and> tree w' = walk (append_frame ?fr) ?segs (tree w)
        \<and> node_at ?segs (tree w')
            = Some (append_frame ?fr (case node_at ?segs (tree w) of None \<Rightarrow> Project [] [] | Some n \<Rightarrow> n))
        \<and> (\<forall>q. \<not> prefix q ?segs \<longrightarrow> node_at q (tree w') = node_at q (tree w))
        \<and> rf_start ?fr = format_date (cur_start c)
        \<and> rf_stop ?fr = timestamp now
        \<and> (\<forall>now'. map_sum id fst (stop now' message w) = Inr (Some c))"
    by blast
qed

theorem stop_returns_session_witness:
  "\<exists>w'. stop example_now (Some ''done'') example_running
            = Inr (Some \<lparr>cur_project = ''play'', cur_start = DInt 100\<rparr>, w')
      \<and> current w' = None
      \<and> node_at [''play''] (tree w')
          = Some (Project [\<lparr>rf_start = 10, rf_stop = 20, rf_message = None, rf_id = None\<rparr>,
                           \<lparr>rf_start = 100, rf_stop = 3600, rf_message = Some ''done'', rf_id = None\<rparr>] [])"
proof -
  have run: "current example_running = Some \<lparr>cur_project = ''play'', cur_start = DInt 100\<rparr>"
    by (simp add: example_running_def)
  from stop_returns_session [of example_running "\<lparr>cur_project = ''play'', cur_start = DInt 100\<rparr>"
      example_now "Some ''done''"] run
  obtain w' where "stop example_now (Some ''done'') example_running
            = Inr (Some \<lparr>cur_project = ''play'', cur_start = DInt 100\<rparr>, w')"
    and "current w' = None"
    and "node_at (split_on CHR ''/'' ''play'') (tree w')
            = Some (append_frame (new_frame (DInt 100) (DArrow example_now) (Some ''done''))
                (case node_at (split_on CHR ''/'' ''play'') (tree example_running) of
                   None \<Rightarrow> Project [] [] | Some n \<Rightarrow> n))"
    by auto
  then show ?thesis
    by (simp add: example_running_def example_now_def new_frame_def append_frame_def
        timestamp_def utc_micros_def arrow_get_def utcfromtimestamp_def)
qed

text \<open>
  The claim as it was written fails: two calls of \<open>stop\<close> on the same store, with clocks
  that show the seconds 200 and 300, store frames that stop at 200 and at 300 and return
  the same value, which holds the project and the start and nothing of the stop.
\<close>

theorem stop_return_counterexample:
  "map_sum id fst
     (stop \<lparr>wall_micros = 200000000, utcoffset = 0\<rparr> None
        \<lparr>tree = [], current = Some \<lparr>cur_project = ''work'', cur_start = DInt 100\<rparr>\<rparr>)
     = Inr (Some \<lparr>cur_project = ''work'', cur_start = DInt 100\<rparr>)
   \<and> map_sum id fst
     (stop \<lparr>wall_micros = 300000000, utcoffset = 0\<rparr> None
        \<lparr>tree = [], current = Some \<lparr>cur_project = ''work'', cur_start = DInt 100\<rparr>\<rparr>)
     = Inr (Some \<lparr>cur_project = ''work'', cur_start = DInt 100\<rparr>)
   \<and> map_sum id (\<lambda>r. tree (snd r))
     (stop \<lparr>wall_micros = 200000000, utcoffset = 0\<rparr> None
        \<lparr>tree = [], current = Some \<lparr>cur_project = ''work'', cur_start = DInt 100\<rparr>\<rparr>)
     = Inr [(''work'', Project [\<lparr>rf_start = 100, rf_stop = 200, rf_message = None, rf_id = None\<rparr>] [])]
   \<and> map_sum id (\<lambda>r. tree (snd r))
     (stop \<lparr>wall_micros = 300000000, utcoffset = 0\<rparr> None
        \<lparr>tree = [], current = Some \<lparr>cur_project = ''work'', cur_start = DInt 100\<rparr>\<rparr>)
     = Inr [(''work'', Project [\<lparr>rf_start = 100, rf_stop = 300, rf_message = None, rf_id = None\<rparr>] [])]"
  by (simp add: stop_def is_started_def current_get_def current_set_def add_frame_def
      new_frame_def append_frame_def timestamp_def utc_micros_def arrow_get_def
      utcfromtimestamp_def Let_def)

subsection \<open>The nodes that the traversals visit\<close>

lemma join_path_snoc:
  "join_path (path @ [name]) = concat (map (\<lambda>s. s @ ''/'') path) @ name"
proof (induction path)
  case Nil
  show ?case by simp
next
  case (Cons s path)
  then show ?case by (simp add: join_path_Cons)
qed

lemma get_frames_nodes:
  "get_frames ps (concat (map (\<lambda>s. s @ ''/'') path))
     = concat (map (\<lambda>pn. map (frame_entry (join_path (fst pn))) (node_frames (snd pn)))
         (nodes ps path))"
proof (induction ps path rule: nodes.induct)
  case (1 path)
  show ?case by simp
next
  case (2 name fs ps rest path)
  have a: "concat (map (\<lambda>s. s @ ''/'') (path @ [name]))
      = concat (map (\<lambda>s. s @ ''/'') path) @ name @ ''/''"
    by simp
  have ih1: "get_frames ps (concat (map (\<lambda>s. s @ ''/'') path) @ name @ ''/'')
      = concat (map (\<lambda>pn. map (frame_entry (join_path (fst pn))) (node_frames (snd pn)))
         (nodes ps (path @ [name])))"
    using 2(1) unfolding a .
  have ih2: "get_frames rest (concat (map (\<lambda>s. s @ ''/'') path))
      = concat (map (\<lambda>pn. map (frame_entry (join_path (fst pn))) (node_frames (snd pn)))
         (nodes rest path))"
    by (rule 2(2))
  show ?case
    unfolding get_frames.simps nodes.simps ih1 ih2
    by (simp add: join_path_snoc)
qed
lemma get_frames_traversal: "get_frames ps [] = traversal ps"
  using get_frames_nodes [of ps "[]"] by (simp add: traversal_def)

lemma get_projects_nodes:
  "get_projects ps (concat (map (\<lambda>s. s @ ''/'') path))
     = map (\<lambda>pn. join_path (fst pn)) (nodes ps path)"
proof (induction ps path rule: nodes.induct)
  case (1 path)
  show ?case by simp
next
  case (2 name fs ps rest path)
  have a: "concat (map (\<lambda>s. s @ ''/'') (path @ [name]))
      = concat (map (\<lambda>s. s @ ''/'') path) @ name @ ''/''"
    by simp
  have ih1: "get_projects ps (concat (map (\<lambda>s. s @ ''/'') path) @ name @ ''/'')
      = map (\<lambda>pn. join_path (fst pn)) (nodes ps (path @ [name]))"
    using 2(1) unfolding a .
  have ih2: "get_projects rest (concat (map (\<lambda>s. s @ ''/'') path))
      = map (\<lambda>pn. join_path (fst pn)) (nodes rest path)"
    by (rule 2(2))
  show ?case
    unfolding get_projects.simps nodes.simps ih1 ih2
    by (simp add: join_path_snoc)
qed
lemma nodes_append: "nodes (xs @ ys) path = nodes xs path @ nodes ys path"
  by (induction xs path rule: nodes.induct) simp_all

lemma nodes_member:
  "map_of ps k = Some c \<Longrightarrow>
     (path @ [k], c) \<in> set (nodes ps path)
     \<and> set (nodes (node_projects c) (path @ [k])) \<subseteq> set (nodes ps path)"
proof (induction ps path rule: nodes.induct)
  case (1 path)
  then show ?case by simp
next
  case (2 name fs ps rest path)
  show ?case
  proof (cases "k = name")
    case True
    with 2(3) have "c = Project fs ps" by simp
    with True show ?thesis by auto
  next
    case False
    with 2(3) have "map_of rest k = Some c" by simp
    from 2(2) [OF this] show ?thesis by auto
  qed
qed

lemma node_at_in_nodes:
  "node_at q ps = Some n \<Longrightarrow> (path @ q, n) \<in> set (nodes ps path)"
proof (induction q arbitrary: ps path)
  case Nil
  then show ?case by simp
next
  case (Cons k ks)
  from Cons.prems obtain c where c: "map_of ps k = Some c"
    by (auto split: option.splits)
  show ?case
  proof (cases "ks = []")
    case True
    with Cons.prems c nodes_member [OF c, of path] show ?thesis by simp
  next
    case False
    with Cons.prems c have "node_at ks (node_projects c) = Some n" by simp
    from Cons.IH [OF this, of "path @ [k]"] nodes_member [OF c, of path]
    show ?thesis by auto
  qed
qed

lemma node_at_key: "node_at (k # ks) ps = Some n \<Longrightarrow> map_of ps k \<noteq> None"
  by (auto split: option.splits)

lemma nodes_node_at:
  "wf_dict ps \<Longrightarrow> (p, n) \<in> set (nodes ps path) \<Longrightarrow>
     \<exists>q. p = path @ q \<and> q \<noteq> [] \<and> node_at q ps = Some n"
proof (induction ps path arbitrary: p n rule: nodes.induct)
  case (1 path)
  then show ?case by simp
next
  case (2 name fs ps rest path)
  from 2(3) have wf: "map_of rest name = None" "wf_dict ps" "wf_dict rest" by simp_all
  from 2(4) consider
      (here) "p = path @ [name]" "n = Project fs ps"
    | (below) "(p, n) \<in> set (nodes ps (path @ [name]))"
    | (later) "(p, n) \<in> set (nodes rest path)"
    by auto
  then show ?case
  proof cases
    case here
    then have "p = path @ [name] \<and> [name] \<noteq> []
        \<and> node_at [name] ((name, Project fs ps) # rest) = Some n" by simp
    then show ?thesis by blast
  next
    case below
    from 2(1) [OF wf(2) below] obtain q
      where q: "p = (path @ [name]) @ q" "q \<noteq> []" "node_at q ps = Some n" by blast
    then have "p = path @ (name # q) \<and> name # q \<noteq> []
        \<and> node_at (name # q) ((name, Project fs ps) # rest) = Some n" by simp
    then show ?thesis by blast
  next
    case later
    from 2(2) [OF wf(3) later] obtain q
      where q: "p = path @ q" "q \<noteq> []" "node_at q rest = Some n" by blast
    then obtain k ks where kq: "q = k # ks" by (cases q) auto
    with q(3) node_at_key have "map_of rest k \<noteq> None" by blast
    with wf(1) have "k \<noteq> name" by auto
    with q kq have "node_at q ((name, Project fs ps) # rest) = Some n" by simp
    with q show ?thesis by blast
  qed
qed

lemma nodes_iff_node_at:
  "wf_dict ps \<Longrightarrow> ((p, n) \<in> set (nodes ps [])) = (node_at p ps = Some n)"
  using nodes_node_at [of ps p n "[]"] node_at_in_nodes [of p ps n "[]"] by auto

subsection \<open>Distinct keys are kept\<close>

text \<open>
  The walk keeps the keys of every dictionary distinct, so every tree that \<open>project\<close> and
  \<open>add_frame\<close> build from the empty tree has distinct keys.
\<close>

lemma wf_dict_Cons:
  "wf_dict ((name, n) # rest) = (map_of rest name = None \<and> wf_dict (node_projects n) \<and> wf_dict rest)"
  by (cases n) simp

lemma wf_dict_update:
  "wf_dict ps \<Longrightarrow> wf_dict (node_projects v) \<Longrightarrow> wf_dict (AList.update k v ps)"
proof (induction ps)
  case Nil
  then show ?case by (simp add: wf_dict_Cons)
next
  case (Cons p ps)
  obtain name n where p: "p = (name, n)" by (cases p)
  from Cons.prems(1) have wf: "map_of ps name = None" "wf_dict (node_projects n)" "wf_dict ps"
    unfolding p by (simp_all add: wf_dict_Cons)
  show ?case
  proof (cases "name = k")
    case True
    with wf Cons.prems(2) show ?thesis unfolding p by (simp add: wf_dict_Cons)
  next
    case False
    from Cons.IH [OF wf(3) Cons.prems(2)] have "wf_dict (AList.update k v ps)" .
    with False wf show ?thesis unfolding p by (simp add: wf_dict_Cons update_conv')
  qed
qed

lemma wf_dict_child: "wf_dict ps \<Longrightarrow> map_of ps k = Some c \<Longrightarrow> wf_dict (node_projects c)"
proof (induction ps)
  case Nil
  then show ?case by simp
next
  case (Cons p ps)
  obtain name n where p: "p = (name, n)" by (cases p)
  from Cons show ?case unfolding p by (auto simp: wf_dict_Cons split: if_splits)
qed

lemma wf_dict_walk:
  assumes keep: "\<And>n. wf_dict (node_projects n) \<Longrightarrow> wf_dict (node_projects (f n))"
  shows "wf_dict ps \<Longrightarrow> wf_dict (walk f segs ps)"
proof (induction segs arbitrary: ps)
  case Nil
  then show ?case by simp
next
  case (Cons name names)
  let ?child = "case map_of ps name of None \<Rightarrow> Project [] [] | Some c \<Rightarrow> c"
  have child: "wf_dict (node_projects ?child)"
    using Cons.prems wf_dict_child [of ps name] by (cases "map_of ps name") simp_all
  show ?case
  proof (cases "names = []")
    case True
    with keep [OF child] Cons.prems show ?thesis by (simp add: wf_dict_update Let_def)
  next
    case False
    with Cons.IH [OF child] Cons.prems show ?thesis by (simp add: wf_dict_update Let_def)
  qed
qed

lemma wf_dict_project: "wf_dict (tree w) \<Longrightarrow> wf_dict (tree (project name w))"
  by (simp add: project_def wf_dict_walk)

lemma wf_dict_add_frame: "wf_dict (tree w) \<Longrightarrow> wf_dict (tree (add_frame name s t message w))"
  by (simp add: add_frame_def wf_dict_walk append_frame_def)

subsection \<open>Resolving a project and listing the projects\<close>

lemma project_node_eq:
  "project_node name w
     = Some (case node_at (split_on CHR ''/'' name) (tree w) of
               None \<Rightarrow> Project [] [] | Some n \<Rightarrow> n)"
  by (simp add: project_node_def project_def node_at_walk_same [OF split_on_nonempty])

lemma project_idem: "project name (project name w) = project name w"
  by (simp add: project_def walk_idem)

lemma project_other:
  "\<not> prefix q (split_on CHR ''/'' name) \<Longrightarrow> node_at q (tree (project name w)) = node_at q (tree w)"
  by (simp add: project_def node_at_walk_other)

lemma project_existing:
  fixes w :: watson
  shows "node_at (split_on CHR ''/'' name) (tree w) = Some n \<Longrightarrow> project name w = w"
  by (simp add: project_def walk_existing)

lemma projects_nodes:
  "projects w = sort (map (\<lambda>pn. join_path (fst pn)) (nodes (tree w) []))"
  using get_projects_nodes [of "tree w" "[]"] by (simp add: projects_def)

text \<open>
  Claim C8. \<open>project\<close> returns the node at the path of the name: the node that was there,
  or a node with no frames and no children that it has just created. Resolving the same
  name again changes nothing and returns the same node; resolving a name whose node
  exists changes nothing at all. Every node whose path is not a prefix of the resolved
  path is as it was, with its whole subtree: after \<^verbatim>\<open>a/b\<close> and then \<^verbatim>\<open>a/b/c\<close> every child
  of \<^verbatim>\<open>a\<close> other than \<^verbatim>\<open>b\<close> is untouched. On the empty tree \<^verbatim>\<open>a/b\<close> creates the node \<^verbatim>\<open>a\<close> with
  the one child \<^verbatim>\<open>b\<close> and nothing else, and \<open>projects\<close> then lists \<^verbatim>\<open>a\<close> and \<^verbatim>\<open>a/b\<close>.
  \<open>projects\<close> lists the joined path of every node, in the lexicographic order of strings.
\<close>

theorem resolve_or_create:
  fixes w :: watson
  shows "project name (project name w) = project name w
   \<and> project_node name (project name w) = project_node name w
   \<and> project_node name w
       = Some (case node_at (split_on CHR ''/'' name) (tree w) of
                 None \<Rightarrow> Project [] [] | Some n \<Rightarrow> n)
   \<and> (node_at (split_on CHR ''/'' name) (tree w) \<noteq> None \<longrightarrow> project name w = w)
   \<and> (\<not> prefix q (split_on CHR ''/'' name) \<longrightarrow>
        node_at q (tree (project name w)) = node_at q (tree w))
   \<and> (k \<noteq> ''b'' \<longrightarrow>
        node_at [''a'', k] (tree (project ''a/b/c'' (project ''a/b'' w))) = node_at [''a'', k] (tree w))
   \<and> current (project name w) = current w
   \<and> project ''a/b'' \<lparr>tree = [], current = c\<rparr>
       = \<lparr>tree = [(''a'', Project [] [(''b'', Project [] [])])], current = c\<rparr>
   \<and> projects (project ''a/b'' \<lparr>tree = [], current = c\<rparr>) = [''a'', ''a/b'']
   \<and> projects w = sort (map (\<lambda>pn. join_path (fst pn)) (nodes (tree w) []))
   \<and> sorted (projects w)"
proof -
  have idem: "project name (project name w) = project name w" by (rule project_idem)
  have same: "project_node name (project name w) = project_node name w"
    by (simp add: project_node_def project_idem)
  have node: "project_node name w
       = Some (case node_at (split_on CHR ''/'' name) (tree w) of
                 None \<Rightarrow> Project [] [] | Some n \<Rightarrow> n)"
    by (rule project_node_eq)
  have ex: "node_at (split_on CHR ''/'' name) (tree w) \<noteq> None \<longrightarrow> project name w = w"
    using project_existing [of name w] by auto
  have other: "\<not> prefix q (split_on CHR ''/'' name) \<longrightarrow>
        node_at q (tree (project name w)) = node_at q (tree w)"
    using project_other [of q name w] by blast
  have sib: "k \<noteq> ''b'' \<longrightarrow>
        node_at [''a'', k] (tree (project ''a/b/c'' (project ''a/b'' w))) = node_at [''a'', k] (tree w)"
  proof
    assume k: "k \<noteq> ''b''"
    have s1: "split_on CHR ''/'' ''a/b'' = [''a'', ''b'']" by simp
    have s2: "split_on CHR ''/'' ''a/b/c'' = [''a'', ''b'', ''c'']" by simp
    from k have p1: "\<not> prefix [''a'', k] (split_on CHR ''/'' ''a/b'')" unfolding s1 by simp
    from k have p2: "\<not> prefix [''a'', k] (split_on CHR ''/'' ''a/b/c'')" unfolding s2 by simp
    from project_other [OF p2, of "project ''a/b'' w"] project_other [OF p1, of w]
    show "node_at [''a'', k] (tree (project ''a/b/c'' (project ''a/b'' w))) = node_at [''a'', k] (tree w)"
      by simp
  qed
  have cur: "current (project name w) = current w" by (simp add: project_def)
  have scen: "project ''a/b'' \<lparr>tree = [], current = c\<rparr>
       = \<lparr>tree = [(''a'', Project [] [(''b'', Project [] [])])], current = c\<rparr>"
    by (simp add: project_def)
  have list: "projects (project ''a/b'' \<lparr>tree = [], current = c\<rparr>) = [''a'', ''a/b'']"
    unfolding scen by (simp add: projects_def)
  have all: "projects w = sort (map (\<lambda>pn. join_path (fst pn)) (nodes (tree w) []))"
    by (rule projects_nodes)
  have srt: "sorted (projects w)" by (simp add: projects_def)
  from idem same node ex other sib cur scen list all srt show ?thesis by blast
qed

theorem resolve_or_create_witness:
  "project ''play'' example_running = example_running
   \<and> node_at [''play''] (tree (project ''work/home'' example_running))
       = node_at [''play''] (tree example_running)
   \<and> node_at [''a'', ''x'']
        (tree (project ''a/b/c'' (project ''a/b''
           \<lparr>tree = [(''a'', Project [] [(''x'', Project [] [])])], current = None\<rparr>)))
       = Some (Project [] [])"
proof -
  have e: "node_at (split_on CHR ''/'' ''play'') (tree example_running) \<noteq> None"
    by (simp add: example_running_def)
  have p: "\<not> prefix [''play''] (split_on CHR ''/'' ''work/home'')" by simp
  have k: "''x'' \<noteq> ''b''" by simp
  from resolve_or_create [of "''play''" example_running "[''play'']" "''x''" None] e
  have a: "project ''play'' example_running = example_running" by blast
  from resolve_or_create [of "''work/home''" example_running "[''play'']" "''x''" None] p
  have b: "node_at [''play''] (tree (project ''work/home'' example_running))
       = node_at [''play''] (tree example_running)" by blast
  from resolve_or_create [of "''a''"
      "\<lparr>tree = [(''a'', Project [] [(''x'', Project [] [])])], current = None\<rparr>" "[]" "''x''" None] k
  have "node_at [''a'', ''x'']
        (tree (project ''a/b/c'' (project ''a/b''
           \<lparr>tree = [(''a'', Project [] [(''x'', Project [] [])])], current = None\<rparr>)))
       = node_at [''a'', ''x'']
           (tree \<lparr>tree = [(''a'', Project [] [(''x'', Project [] [])])], current = None\<rparr>)"
    by blast
  then have c: "node_at [''a'', ''x'']
        (tree (project ''a/b/c'' (project ''a/b''
           \<lparr>tree = [(''a'', Project [] [(''x'', Project [] [])])], current = None\<rparr>)))
       = Some (Project [] [])"
    by simp
  from a b c show ?thesis by blast
qed

subsection \<open>The order of the listed frames\<close>

lemma frame_entry_start: "getitem (frame_entry p raw) ''start'' = PArrow (parse_date (rf_start raw))"
  by (simp add: frame_entry_def getitem_def)

lemma frame_entry_project: "getitem (frame_entry p raw) ''project'' = PStr p"
  by (simp add: frame_entry_def getitem_def)

lemma start_key_frame_entry: "start_key (frame_entry p raw) = 1000000 * rf_start raw"
  by (simp add: start_key_def frame_entry_start parse_date_def utcfromtimestamp_def utc_micros_def)

lemma frames_traversal: "frames w = sort_key start_key (traversal (tree w))"
  by (simp add: frames_def get_frames_traversal)

text \<open>
  Claim C9. \<open>frames\<close> is the stable sort, by the instant of the start, of the traversal
  that visits the nodes parents first and children in the order of the dictionary and
  takes the frames of a node in the order of insertion, each labelled with the joined
  path of its node. So the result is sorted by start, holds exactly the entries of the
  traversal (each frame of each node once), and the entries of any one start come in the
  order of the traversal. The key of an entry is its stored start in microseconds, and
  its project is the label. When the keys of every dictionary are distinct, as they are
  in Python, the nodes that the traversal visits are exactly the nodes that paths lead to.
\<close>

theorem frames_sorted_stable:
  "frames w = sort_key start_key (traversal (tree w))
   \<and> sorted (map start_key (frames w))
   \<and> mset (frames w) = mset (traversal (tree w))
   \<and> (\<forall>k. filter (\<lambda>e. start_key e = k) (frames w)
            = filter (\<lambda>e. start_key e = k) (traversal (tree w)))
   \<and> traversal (tree w)
       = concat (map (\<lambda>pn. map (frame_entry (join_path (fst pn))) (node_frames (snd pn)))
           (nodes (tree w) []))
   \<and> start_key (frame_entry p raw) = 1000000 * rf_start raw
   \<and> getitem (frame_entry p raw) ''project'' = PStr p
   \<and> getitem (frame_entry p raw) ''start'' = PArrow (parse_date (rf_start raw))
   \<and> (wf_dict (tree w) \<longrightarrow>
        (\<forall>path n. ((path, n) \<in> set (nodes (tree w) [])) = (node_at path (tree w) = Some n)))"
proof -
  have a: "frames w = sort_key start_key (traversal (tree w))" by (rule frames_traversal)
  have b: "sorted (map start_key (frames w))" unfolding a by (rule sorted_sort_key)
  have c: "mset (frames w) = mset (traversal (tree w))" unfolding a by simp
  have d: "\<forall>k. filter (\<lambda>e. start_key e = k) (frames w)
            = filter (\<lambda>e. start_key e = k) (traversal (tree w))"
    unfolding a by (simp add: sort_key_stable)
  have e: "traversal (tree w)
       = concat (map (\<lambda>pn. map (frame_entry (join_path (fst pn))) (node_frames (snd pn)))
           (nodes (tree w) []))"
    by (simp add: traversal_def)
  have f: "wf_dict (tree w) \<longrightarrow>
        (\<forall>path n. ((path, n) \<in> set (nodes (tree w) [])) = (node_at path (tree w) = Some n))"
    using nodes_iff_node_at [of "tree w"] by blast
  from a b c d e f start_key_frame_entry [of p raw] frame_entry_project [of p raw]
    frame_entry_start [of p raw]
  show ?thesis by blast
qed

theorem frames_sorted_stable_witness:
  "wf_dict (tree example_store)
   \<and> (\<forall>path n. ((path, n) \<in> set (nodes (tree example_store) []))
         = (node_at path (tree example_store) = Some n))
   \<and> map (\<lambda>e. (getitem e ''project'', start_key e)) (traversal (tree example_store))
       = [(PStr ''b'', 5000000), (PStr ''b/x'', 3000000), (PStr ''a'', 5000000), (PStr ''a'', 1000000)]
   \<and> map (\<lambda>e. (getitem e ''project'', start_key e)) (frames example_store)
       = [(PStr ''a'', 1000000), (PStr ''b/x'', 3000000), (PStr ''b'', 5000000), (PStr ''a'', 5000000)]"
proof -
  have wf: "wf_dict (tree example_store)" by (simp add: example_store_def)
  from frames_sorted_stable [of example_store "[]" "\<lparr>rf_start = 0, rf_stop = 0, rf_message = None, rf_id = None\<rparr>"] wf
  have n: "\<forall>path n. ((path, n) \<in> set (nodes (tree example_store) []))
         = (node_at path (tree example_store) = Some n)"
    and fr: "frames example_store = sort_key start_key (traversal (tree example_store))"
    by blast+
  have tr: "traversal (tree example_store)
      = [frame_entry ''b'' \<lparr>rf_start = 5, rf_stop = 6, rf_message = None, rf_id = None\<rparr>,
         frame_entry ''b/x'' \<lparr>rf_start = 3, rf_stop = 4, rf_message = None, rf_id = None\<rparr>,
         frame_entry ''a'' \<lparr>rf_start = 5, rf_stop = 9, rf_message = None, rf_id = None\<rparr>,
         frame_entry ''a'' \<lparr>rf_start = 1, rf_stop = 2, rf_message = Some ''early'', rf_id = Some (PInt 42)\<rparr>]"
    by (simp add: traversal_def example_store_def)
  have t: "map (\<lambda>e. (getitem e ''project'', start_key e)) (traversal (tree example_store))
       = [(PStr ''b'', 5000000), (PStr ''b/x'', 3000000), (PStr ''a'', 5000000), (PStr ''a'', 1000000)]"
    unfolding tr by (simp add: start_key_frame_entry frame_entry_project)
  have f: "map (\<lambda>e. (getitem e ''project'', start_key e)) (frames example_store)
       = [(PStr ''a'', 1000000), (PStr ''b/x'', 3000000), (PStr ''b'', 5000000), (PStr ''a'', 5000000)]"
    unfolding fr tr by (simp add: start_key_frame_entry frame_entry_project)
  from wf n t f show ?thesis by blast
qed

subsection \<open>What the listed frames and the pushed frames hold\<close>

lemma frames_entries:
  "e \<in> set (frames w) \<Longrightarrow>
     \<exists>pn \<in> set (nodes (tree w) []). \<exists>raw \<in> set (node_frames (snd pn)).
        e = frame_entry (join_path (fst pn)) raw"
  by (auto simp: frames_traversal traversal_def)

lemma frame_entry_keys: "map fst (frame_entry p raw) = [''project'', ''id'', ''start'', ''stop'']"
  by (simp add: frame_entry_def)

lemma frame_entry_no_message: "map_of (frame_entry p raw) ''message'' = None"
  by (simp add: frame_entry_def)

lemma frame_entry_message: "frame_entry p (raw\<lparr>rf_message := m\<rparr>) = frame_entry p raw"
  by (simp add: frame_entry_def)

lemma push_frame_keys: "map fst (push_frame py_str f) = [''id'', ''start'', ''stop'', ''project'']"
  by (simp add: push_frame_def)

lemma push_frame_entry:
  "push_frame py_str (frame_entry p raw) =
     [(''id'', (case rf_id raw of None \<Rightarrow> PNone | Some v \<Rightarrow> v)),
      (''start'', PStr (py_str (PArrow (parse_date (rf_start raw))))),
      (''stop'', PStr (py_str (PArrow (parse_date (rf_stop raw))))),
      (''project'', PList (map PStr (split_on CHR ''/'' p)))]"
  by (simp add: push_frame_def frame_entry_def dict_get_def getitem_def)

lemma get_frames_strip_messages: "get_frames (strip_messages ps) anc = get_frames ps anc"
  by (induction ps anc rule: get_frames.induct) (simp_all add: frame_entry_message)

lemma frames_strip_messages: "frames (w\<lparr>tree := strip_messages (tree w)\<rparr>) = frames w"
  by (simp add: frames_def get_frames_strip_messages)

lemma new_frame_message: "m \<noteq> [] \<Longrightarrow> rf_message (new_frame s t (Some m)) = Some m"
  by (simp add: new_frame_def)

lemma add_frame_node:
  "node_at (split_on CHR ''/'' name) (tree (add_frame name s t message w))
     = Some (append_frame (new_frame s t message)
         (case node_at (split_on CHR ''/'' name) (tree w) of None \<Rightarrow> Project [] [] | Some n \<Rightarrow> n))"
  by (simp add: add_frame_def node_at_walk_same [OF split_on_nonempty])

text \<open>
  Claim C10. Every entry that \<open>frames\<close> returns has the four keys \<^verbatim>\<open>project\<close>, \<^verbatim>\<open>id\<close>,
  \<^verbatim>\<open>start\<close> and \<^verbatim>\<open>stop\<close> and no other, so no \<^verbatim>\<open>message\<close>; an entry does not depend on the
  message of the stored frame, and the whole list is the one that the tree without any
  message gives. The dictionaries that \<open>push\<close> builds from the entries have the keys
  \<^verbatim>\<open>id\<close>, \<^verbatim>\<open>start\<close>, \<^verbatim>\<open>stop\<close> and \<^verbatim>\<open>project\<close>, and what \<open>push\<close> sends and returns is the same
  with and without the messages. The tree does keep the message: the frame that
  \<open>add_frame\<close> appends to the node of the project holds a message that is not empty, and
  \<open>dump\<close> writes the tree as it is.
\<close>

theorem frames_drop_message:
  "(\<forall>e \<in> set (frames w).
      map fst e = [''project'', ''id'', ''start'', ''stop''] \<and> map_of e ''message'' = None)
   \<and> frame_entry p (raw\<lparr>rf_message := m'\<rparr>) = frame_entry p raw
   \<and> frames (w\<lparr>tree := strip_messages (tree w)\<rparr>) = frames w
   \<and> (\<forall>f \<in> set (push_frames py_str w). map fst f = [''id'', ''start'', ''stop'', ''project''])
   \<and> snd (push py_str cfg remote force (w\<lparr>tree := strip_messages (tree w)\<rparr>))
       = snd (push py_str cfg remote force w)
   \<and> (m \<noteq> [] \<longrightarrow>
        rf_message (new_frame s t (Some m)) = Some m
        \<and> node_at (split_on CHR ''/'' name) (tree (add_frame name s t (Some m) w))
            = Some (append_frame (new_frame s t (Some m))
                (case node_at (split_on CHR ''/'' name) (tree w) of
                   None \<Rightarrow> Project [] [] | Some n \<Rightarrow> n)))
   \<and> c_projects (dump w) = Some (tree w)"
proof -
  have a: "\<forall>e \<in> set (frames w).
      map fst e = [''project'', ''id'', ''start'', ''stop''] \<and> map_of e ''message'' = None"
  proof
    fix e assume "e \<in> set (frames w)"
    from frames_entries [OF this] obtain p' raw' where "e = frame_entry p' raw'" by blast
    then show "map fst e = [''project'', ''id'', ''start'', ''stop''] \<and> map_of e ''message'' = None"
      by (simp add: frame_entry_keys frame_entry_no_message)
  qed
  have b: "frame_entry p (raw\<lparr>rf_message := m'\<rparr>) = frame_entry p raw"
    by (rule frame_entry_message)
  have c: "frames (w\<lparr>tree := strip_messages (tree w)\<rparr>) = frames w"
    by (rule frames_strip_messages)
  have d: "\<forall>f \<in> set (push_frames py_str w). map fst f = [''id'', ''start'', ''stop'', ''project'']"
    by (auto simp: push_frames_def push_frame_keys)
  have pf: "push_frames py_str (w\<lparr>tree := strip_messages (tree w)\<rparr>) = push_frames py_str w"
    by (simp only: push_frames_def c)
  have nf: "new_frames py_str (w\<lparr>tree := strip_messages (tree w)\<rparr>) = new_frames py_str w"
    by (simp only: new_frames_def pf)
  have ef: "existing_frames py_str force (w\<lparr>tree := strip_messages (tree w)\<rparr>)
      = existing_frames py_str force w"
    by (simp only: existing_frames_def pf)
  have e: "snd (push py_str cfg remote force (w\<lparr>tree := strip_messages (tree w)\<rparr>))
       = snd (push py_str cfg remote force w)"
    unfolding push_def nf ef
    by (simp add: Let_def split: sum.splits prod.splits option.splits)
  have f: "m \<noteq> [] \<longrightarrow>
        rf_message (new_frame s t (Some m)) = Some m
        \<and> node_at (split_on CHR ''/'' name) (tree (add_frame name s t (Some m) w))
            = Some (append_frame (new_frame s t (Some m))
                (case node_at (split_on CHR ''/'' name) (tree w) of
                   None \<Rightarrow> Project [] [] | Some n \<Rightarrow> n))"
    by (simp add: new_frame_message add_frame_node)
  have g: "c_projects (dump w) = Some (tree w)"
    by (simp add: dump_def Let_def)
  from a b c d e f g show ?thesis by blast
qed

theorem frames_drop_message_witness:
  "frame_entry ''a'' \<lparr>rf_start = 1, rf_stop = 2, rf_message = Some ''early'', rf_id = Some (PInt 42)\<rparr>
     \<in> set (frames example_store)
   \<and> map fst (frame_entry ''a''
        \<lparr>rf_start = 1, rf_stop = 2, rf_message = Some ''early'', rf_id = Some (PInt 42)\<rparr>)
       = [''project'', ''id'', ''start'', ''stop'']
   \<and> map_of (frame_entry ''a''
        \<lparr>rf_start = 1, rf_stop = 2, rf_message = Some ''early'', rf_id = Some (PInt 42)\<rparr>)
        ''message'' = None
   \<and> rf_message (new_frame (DInt 1) (DInt 2) (Some ''early'')) = Some ''early''"
proof -
  let ?e = "frame_entry ''a''
    \<lparr>rf_start = 1, rf_stop = 2, rf_message = Some ''early'', rf_id = Some (PInt 42)\<rparr>"
  have "set (frames example_store) = set (get_frames (tree example_store) [])"
    by (simp add: frames_def)
  then have mem: "?e \<in> set (frames example_store)"
    by (simp add: example_store_def)
  have ne: "''early'' \<noteq> []" by simp
  from frames_drop_message [where w = example_store and m = "''early''" and s = "DInt 1"
      and t = "DInt 2"] mem ne
  show ?thesis by blast
qed

subsection \<open>The requests that push sends\<close>

lemma push_sent:
  "config cfg = Inr (url, token) \<Longrightarrow>
   \<exists>rest. fst (snd (push py_str cfg remote force w))
       = (if new_frames py_str w \<noteq> []
          then [Post (url @ ''/frames/'')
                  (PDict [(''frames'', PList (map PDict (new_frames py_str w)))])
                  (push_headers token)]
          else []) @ rest
     \<and> (rest = []
        \<or> rest = [Put (url @ ''/frames/'')
                    (PDict [(''frames'', PList (map PDict (existing_frames py_str force w)))])
                    (push_headers token)])"
  by (simp add: push_def create_frames_def update_frames_def Let_def
      split: sum.splits option.splits)

lemma new_frames_items:
  assumes "item \<in> set (new_frames py_str w)"
  shows "\<exists>p raw. frame_entry p raw \<in> set (frames w)
     \<and> item = [(''id'', PNone),
               (''start'', PStr (py_str (PArrow (parse_date (rf_start raw))))),
               (''stop'', PStr (py_str (PArrow (parse_date (rf_stop raw))))),
               (''project'', PList (map PStr (split_on CHR ''/'' p)))]"
proof -
  from assms obtain e where e: "e \<in> set (frames w)" and item: "item = push_frame py_str e"
    and none: "getitem item ''id'' = PNone"
    by (auto simp: new_frames_def push_frames_def)
  from frames_entries [OF e] obtain p raw where pr: "e = frame_entry p raw" by blast
  from none have "(case rf_id raw of None \<Rightarrow> PNone | Some v \<Rightarrow> v) = PNone"
    unfolding item pr push_frame_entry by (simp add: getitem_def)
  then have "item = [(''id'', PNone),
               (''start'', PStr (py_str (PArrow (parse_date (rf_start raw))))),
               (''stop'', PStr (py_str (PArrow (parse_date (rf_stop raw))))),
               (''project'', PList (map PStr (split_on CHR ''/'' p)))]"
    unfolding item pr push_frame_entry by simp
  with e pr show ?thesis by blast
qed

text \<open>
  Claim C6, as amended. With both options configured, \<open>push\<close> sends the creation request
  first and only when there are new frames, and at most one update request after it; the
  creation request goes to the URL followed by \<^verbatim>\<open>/frames/\<close> and its body is the whole batch of
  new frames under the key \<^verbatim>\<open>frames\<close>. Every item of the batch comes from an entry of
  \<open>frames\<close> and has four keys: \<^verbatim>\<open>id\<close> with the value \<^verbatim>\<open>None\<close>, \<^verbatim>\<open>start\<close> and \<^verbatim>\<open>stop\<close> with the
  strings that \<^verbatim>\<open>str\<close> gives for the two Arrow objects, and \<^verbatim>\<open>project\<close> with the list of the
  segments of the project's name between slashes.
\<close>

theorem creation_request_shape:
  "(config cfg = Inr (url, token) \<longrightarrow>
     (\<exists>rest. fst (snd (push py_str cfg remote force w))
         = (if new_frames py_str w \<noteq> []
            then [Post (url @ ''/frames/'')
                    (PDict [(''frames'', PList (map PDict (new_frames py_str w)))])
                    (push_headers token)]
            else []) @ rest
       \<and> (rest = []
          \<or> rest = [Put (url @ ''/frames/'')
                      (PDict [(''frames'', PList (map PDict (existing_frames py_str force w)))])
                      (push_headers token)])))
   \<and> (\<forall>item \<in> set (new_frames py_str w).
        \<exists>p raw. frame_entry p raw \<in> set (frames w)
          \<and> item = [(''id'', PNone),
                    (''start'', PStr (py_str (PArrow (parse_date (rf_start raw))))),
                    (''stop'', PStr (py_str (PArrow (parse_date (rf_stop raw))))),
                    (''project'', PList (map PStr (split_on CHR ''/'' p)))])"
  using push_sent [of cfg url token py_str remote force w] new_frames_items [of _ py_str w]
  by blast

lemma new_frames_example:
  "new_frames example_str example_running
     = [[(''id'', PNone), (''start'', PStr ''1970-01-01T00:00:10+00:00''),
         (''stop'', PStr ''1970-01-01T00:00:20+00:00''), (''project'', PList [PStr ''play''])]]"
proof -
  have f: "frames example_running
      = [frame_entry ''play'' \<lparr>rf_start = 10, rf_stop = 20, rf_message = None, rf_id = None\<rparr>]"
    by (simp add: frames_def example_running_def)
  show ?thesis
    unfolding new_frames_def push_frames_def f
    by (simp add: push_frame_entry getitem_def example_str_def parse_date_def
        utcfromtimestamp_def)
qed

theorem creation_request_shape_witness:
  "\<exists>rest. fst (snd (push example_str example_config example_remote False example_running))
      = Post ''http://crick/frames/''
          (PDict [(''frames'', PList [PDict
             [(''id'', PNone), (''start'', PStr ''1970-01-01T00:00:10+00:00''),
              (''stop'', PStr ''1970-01-01T00:00:20+00:00''), (''project'', PList [PStr ''play''])]])])
          (push_headers ''secret'') # rest"
proof -
  have c: "config example_config = Inr (''http://crick'', ''secret'')"
    by (simp add: config_def example_config_def)
  from creation_request_shape [of example_config "''http://crick''" "''secret''" example_str
      example_remote False example_running] c
  obtain rest where "fst (snd (push example_str example_config example_remote False example_running))
         = (if new_frames example_str example_running \<noteq> []
            then [Post (''http://crick'' @ ''/frames/'')
                    (PDict [(''frames'', PList (map PDict (new_frames example_str example_running)))])
                    (push_headers ''secret'')]
            else []) @ rest"
    by blast
  then show ?thesis unfolding new_frames_example by simp
qed

text \<open>
  The claim as it was written fails on a store with one frame that has no id: the one item
  of the batch that \<open>push\<close> sends holds the key \<^verbatim>\<open>id\<close>, with the value \<^verbatim>\<open>None\<close>.
\<close>

theorem creation_request_id_counterexample:
  "fst (snd (push example_str example_config example_remote False example_running))
     = [Post ''http://crick/frames/''
          (PDict [(''frames'', PList [PDict
             [(''id'', PNone), (''start'', PStr ''1970-01-01T00:00:10+00:00''),
              (''stop'', PStr ''1970-01-01T00:00:20+00:00''), (''project'', PList [PStr ''play''])]])])
          [(''content-type'', ''application/json''), (''Authorization'', ''Token secret'')]]
   \<and> map_of [(''id'', PNone), (''start'', PStr ''1970-01-01T00:00:10+00:00''),
              (''stop'', PStr ''1970-01-01T00:00:20+00:00''), (''project'', PList [PStr ''play''])]
        ''id'' = Some PNone"
  by (simp add: push_def new_frames_example existing_frames_def config_def example_config_def
      create_frames_def example_remote_def push_headers_def Let_def)

subsection \<open>Pushing twice\<close>

lemma push_state: "fst (push py_str cfg remote force w) = w"
  by (simp add: push_def Let_def split: sum.splits prod.splits option.splits)

text \<open>
  Claim C1 does not hold of the code. The store of the example holds one frame with no
  id. A first \<open>push\<close> without force sends that frame for creation, the server answers
  with the id 7, and the dictionary that \<open>push\<close> returns holds the id. That dictionary is
  one \<open>push\<close> built itself: the store after the call is the store before it, its one frame
  still listed with the id \<^verbatim>\<open>None\<close> and dumped without an id. A second \<open>push\<close> without
  force therefore sends the same frame for creation again.
\<close>

theorem push_twice_creates_again:
  "push example_str example_config example_remote False example_running
     = (example_running,
        [Post ''http://crick/frames/''
           (PDict [(''frames'', PList [PDict
              [(''id'', PNone), (''start'', PStr ''1970-01-01T00:00:10+00:00''),
               (''stop'', PStr ''1970-01-01T00:00:20+00:00''), (''project'', PList [PStr ''play''])]])])
           [(''content-type'', ''application/json''), (''Authorization'', ''Token secret'')]],
        Inr [[(''id'', PInt 7), (''start'', PStr ''1970-01-01T00:00:10+00:00''),
              (''stop'', PStr ''1970-01-01T00:00:20+00:00'')]])
   \<and> frames (fst (push example_str example_config example_remote False example_running))
       = [[(''project'', PStr ''play''), (''id'', PNone),
           (''start'', PArrow \<lparr>wall_micros = 10000000, utcoffset = 0\<rparr>),
           (''stop'', PArrow \<lparr>wall_micros = 20000000, utcoffset = 0\<rparr>)]]
   \<and> c_projects (dump (fst (push example_str example_config example_remote False example_running)))
       = Some [(''play'', Project [\<lparr>rf_start = 10, rf_stop = 20, rf_message = None, rf_id = None\<rparr>] [])]
   \<and> fst (snd (push example_str example_config example_remote False
         (fst (push example_str example_config example_remote False example_running))))
       = [Post ''http://crick/frames/''
           (PDict [(''frames'', PList [PDict
              [(''id'', PNone), (''start'', PStr ''1970-01-01T00:00:10+00:00''),
               (''stop'', PStr ''1970-01-01T00:00:20+00:00''), (''project'', PList [PStr ''play''])]])])
           [(''content-type'', ''application/json''), (''Authorization'', ''Token secret'')]]"
proof -
  let ?p = "push example_str example_config example_remote False example_running"
  have first: "?p
     = (example_running,
        [Post ''http://crick/frames/''
           (PDict [(''frames'', PList [PDict
              [(''id'', PNone), (''start'', PStr ''1970-01-01T00:00:10+00:00''),
               (''stop'', PStr ''1970-01-01T00:00:20+00:00''), (''project'', PList [PStr ''play''])]])])
           [(''content-type'', ''application/json''), (''Authorization'', ''Token secret'')]],
        Inr [[(''id'', PInt 7), (''start'', PStr ''1970-01-01T00:00:10+00:00''),
              (''stop'', PStr ''1970-01-01T00:00:20+00:00'')]])"
    by (simp add: push_def new_frames_example existing_frames_def config_def example_config_def
        create_frames_def example_remote_def push_headers_def Let_def)
  have st: "fst ?p = example_running" by (rule push_state)
  have fr: "frames example_running
       = [[(''project'', PStr ''play''), (''id'', PNone),
           (''start'', PArrow \<lparr>wall_micros = 10000000, utcoffset = 0\<rparr>),
           (''stop'', PArrow \<lparr>wall_micros = 20000000, utcoffset = 0\<rparr>)]]"
    by (simp add: frames_def example_running_def frame_entry_def parse_date_def
        utcfromtimestamp_def)
  have du: "c_projects (dump example_running)
       = Some [(''play'', Project [\<lparr>rf_start = 10, rf_stop = 20, rf_message = None, rf_id = None\<rparr>] [])]"
    by (simp add: dump_def example_running_def Let_def)
  have second: "fst (snd (push example_str example_config example_remote False (fst ?p)))
       = [Post ''http://crick/frames/''
           (PDict [(''frames'', PList [PDict
              [(''id'', PNone), (''start'', PStr ''1970-01-01T00:00:10+00:00''),
               (''stop'', PStr ''1970-01-01T00:00:20+00:00''), (''project'', PList [PStr ''play''])]])])
           [(''content-type'', ''application/json''), (''Authorization'', ''Token secret'')]]"
    unfolding st by (simp add: first)
  from first fr du second show ?thesis unfolding st by simp
qed

end
